theory Spec2Isabelle
  imports Main "HOL-Library.Char_ord" "HOL-Library.List_Lexorder" "HOL-Library.Sublist"
begin

section \<open>Data model\<close>

text \<open>
  The dashboard of \<^verbatim>\<open>app.py\<close> works on one pandas frame. A cell is a text value or the
  missing marker (pandas \<^verbatim>\<open>NaN\<close>); numeric cells are outside this model. Strings are
  ASCII: one \<^typ>\<open>char\<close> per character, compared by code as Python compares them.
  A frame is a list of column labels and a list of rows, each row holding one cell per
  label, in label order. The frames pandas builds are rectangular, and the labels
  \<^verbatim>\<open>read_excel\<close> delivers are pairwise distinct; \<open>wf_frame\<close> says so.
\<close>

datatype cell = NaN | Str string

type_synonym row = "cell list"

record dataframe =
  columns :: "string list"
  rows :: "row list"

datatype error = KeyError string | ValueError string

definition wf_frame :: "dataframe \<Rightarrow> bool" where
  "wf_frame df =
     (distinct (columns df) \<and> list_all (\<lambda>r. length r = length (columns df)) (rows df))"

text \<open>\<^verbatim>\<open>c in df.columns\<close>\<close>

definition has_col :: "dataframe \<Rightarrow> string \<Rightarrow> bool" where
  "has_col df c = (c \<in> set (columns df))"

text \<open>
  The cell of a row under a label. The default branch is taken only for a label the frame
  does not have; every use below is either guarded by \<open>has_col\<close> or on the specification
  side of a theorem.
\<close>

definition cell_of :: "string list \<Rightarrow> row \<Rightarrow> string \<Rightarrow> cell" where
  "cell_of cols r c = (case map_of (zip cols r) c of Some v \<Rightarrow> v | None \<Rightarrow> NaN)"

definition series :: "dataframe \<Rightarrow> string \<Rightarrow> cell list" where
  "series df c = map (\<lambda>r. cell_of (columns df) r c) (rows df)"

text \<open>\<^verbatim>\<open>df[c]\<close>: a missing label raises \<^verbatim>\<open>KeyError\<close>.\<close>

definition getitem :: "dataframe \<Rightarrow> string \<Rightarrow> error + cell list" where
  "getitem df c = (if has_col df c then Inr (series df c) else Inl (KeyError c))"

text \<open>
  \<^verbatim>\<open>Series.isin(values)\<close> for a list of text values (the options of a multiselect are
  the non-missing values of a column, so a selection holds no missing marker).
\<close>

fun isin :: "cell \<Rightarrow> string list \<Rightarrow> bool" where
  "isin NaN vs = False"
| "isin (Str s) vs = (s \<in> set vs)"

text \<open>\<^verbatim>\<open>df[df[c].isin(vs)]\<close>\<close>

definition select_isin :: "dataframe \<Rightarrow> string \<Rightarrow> string list \<Rightarrow> error + dataframe" where
  "select_isin df c vs =
     (if has_col df c
      then Inr (df\<lparr>rows := filter (\<lambda>r. isin (cell_of (columns df) r c) vs) (rows df)\<rparr>)
      else Inl (KeyError c))"

text \<open>\<^verbatim>\<open>Series.dropna()\<close>, \<^verbatim>\<open>Series.unique()\<close> (first occurrences, in order of appearance)
  and Python's \<^verbatim>\<open>sorted\<close>.\<close>

fun dropna :: "cell list \<Rightarrow> string list" where
  "dropna [] = []"
| "dropna (NaN # xs) = dropna xs"
| "dropna (Str s # xs) = s # dropna xs"

fun unique_from :: "'a list \<Rightarrow> 'a list \<Rightarrow> 'a list" where
  "unique_from seen [] = []"
| "unique_from seen (x # xs) =
     (if x \<in> set seen then unique_from seen xs else x # unique_from (x # seen) xs)"

definition unique :: "'a list \<Rightarrow> 'a list" where
  "unique xs = unique_from [] xs"

definition sorted_py :: "string list \<Rightarrow> string list" where
  "sorted_py xs = sort xs"

text \<open>\<^verbatim>\<open>sorted(s.dropna().unique())\<close>, the expression behind every option list.\<close>

definition options_of :: "cell list \<Rightarrow> string list" where
  "options_of s = sorted_py (unique (dropna s))"

section \<open>Cascading filter controls (lines 95 to 117)\<close>

definition customers :: "dataframe \<Rightarrow> string list" where
  "customers df =
     (if has_col df ''Customer'' then options_of (series df ''Customer'') else [])"

definition sam_vals :: "dataframe \<Rightarrow> string list \<Rightarrow> string list" where
  "sam_vals df customer_choice =
     (if customer_choice \<noteq> [] \<and> has_col df ''Customer'' \<and> has_col df ''WSC_SAM''
      then (let sam_subset =
                  df\<lparr>rows := filter (\<lambda>r. isin (cell_of (columns df) r ''Customer'') customer_choice)
                                    (rows df)\<rparr>
            in options_of (series sam_subset ''WSC_SAM''))
      else if has_col df ''WSC_SAM'' then options_of (series df ''WSC_SAM'') else [])"

definition state_subset :: "dataframe \<Rightarrow> string list \<Rightarrow> string list \<Rightarrow> error + dataframe" where
  "state_subset df customer_choice sam_choice =
     (case (if customer_choice \<noteq> [] then select_isin df ''Customer'' customer_choice
            else Inr df) of
        Inl e \<Rightarrow> Inl e
      | Inr s1 \<Rightarrow>
          if sam_choice \<noteq> [] \<and> has_col s1 ''WSC_SAM''
          then select_isin s1 ''WSC_SAM'' sam_choice
          else Inr s1)"

definition state_vals :: "dataframe \<Rightarrow> string list \<Rightarrow> string list \<Rightarrow> error + string list" where
  "state_vals df customer_choice sam_choice =
     (case state_subset df customer_choice sam_choice of
        Inl e \<Rightarrow> Inl e
      | Inr ss \<Rightarrow>
          (case getitem ss ''State'' of
             Inl e \<Rightarrow> Inl e
           | Inr s \<Rightarrow> Inr (options_of s)))"

text \<open>
  The script runs top to bottom, so line 113 is reached only when line 110 has not raised:
  \<open>zip_subset\<close> first goes through \<open>state_vals\<close>.
\<close>

definition zip_subset ::
  "dataframe \<Rightarrow> string list \<Rightarrow> string list \<Rightarrow> string list \<Rightarrow> error + dataframe" where
  "zip_subset df customer_choice sam_choice state_choice =
     (case state_vals df customer_choice sam_choice of
        Inl e \<Rightarrow> Inl e
      | Inr _ \<Rightarrow>
          (case state_subset df customer_choice sam_choice of
             Inl e \<Rightarrow> Inl e
           | Inr ss \<Rightarrow>
               if state_choice \<noteq> [] then select_isin ss ''State'' state_choice else Inr ss))"

definition zip_vals ::
  "dataframe \<Rightarrow> string list \<Rightarrow> string list \<Rightarrow> string list \<Rightarrow> error + string list" where
  "zip_vals df customer_choice sam_choice state_choice =
     (case zip_subset df customer_choice sam_choice state_choice of
        Inl e \<Rightarrow> Inl e
      | Inr zs \<Rightarrow>
          (case getitem zs ''Zip'' of
             Inl e \<Rightarrow> Inl e
           | Inr s \<Rightarrow> Inr (options_of s)))"

section \<open>Applying the filters (lines 147 to 159)\<close>

text \<open>The four dimension filters, reached once the option lists above have been built.\<close>

definition dimension_filtered ::
  "dataframe \<Rightarrow> string list \<Rightarrow> string list \<Rightarrow> string list \<Rightarrow> string list \<Rightarrow> error + dataframe"
  where
  "dimension_filtered df customer_choice sam_choice state_choice zip_choice =
     (case zip_vals df customer_choice sam_choice state_choice of
        Inl e \<Rightarrow> Inl e
      | Inr _ \<Rightarrow>
     (case (if customer_choice \<noteq> [] then select_isin df ''Customer'' customer_choice
            else Inr df) of
        Inl e \<Rightarrow> Inl e
      | Inr f1 \<Rightarrow>
     (case (if sam_choice \<noteq> [] \<and> has_col f1 ''WSC_SAM''
            then select_isin f1 ''WSC_SAM'' sam_choice else Inr f1) of
        Inl e \<Rightarrow> Inl e
      | Inr f2 \<Rightarrow>
     (case (if state_choice \<noteq> [] then select_isin f2 ''State'' state_choice else Inr f2) of
        Inl e \<Rightarrow> Inl e
      | Inr f3 \<Rightarrow>
          (if zip_choice \<noteq> [] then select_isin f3 ''Zip'' zip_choice else Inr f3)))))"

text \<open>
  The search box (lines 156 to 159). \<^verbatim>\<open>re.escape\<close> makes a pattern that matches the text
  itself, character by character, so \<^verbatim>\<open>str.contains(patt, case=False)\<close> is a search for the
  text at any position, letters compared without regard to case. \<^verbatim>\<open>astype(str)\<close> writes a
  missing cell as \<^verbatim>\<open>nan\<close>.
\<close>

definition astype_str :: "cell \<Rightarrow> string" where
  "astype_str v = (case v of NaN \<Rightarrow> ''nan'' | Str s \<Rightarrow> s)"

definition lower_char :: "char \<Rightarrow> char" where
  "lower_char c = (if CHR ''A'' \<le> c \<and> c \<le> CHR ''Z'' then char_of (of_char c + (32::nat)) else c)"

definition upper_char :: "char \<Rightarrow> char" where
  "upper_char c = (if CHR ''a'' \<le> c \<and> c \<le> CHR ''z'' then char_of (of_char c - (32::nat)) else c)"

definition lower :: "string \<Rightarrow> string" where
  "lower s = map lower_char s"

definition upper :: "string \<Rightarrow> string" where
  "upper s = map upper_char s"

fun starts_with :: "string \<Rightarrow> string \<Rightarrow> bool" where
  "starts_with [] s = True"
| "starts_with (p # ps) [] = False"
| "starts_with (p # ps) (c # cs) = (p = c \<and> starts_with ps cs)"

fun search_literal :: "string \<Rightarrow> string \<Rightarrow> bool" where
  "search_literal p [] = (p = [])"
| "search_literal p (c # cs) = (starts_with p (c # cs) \<or> search_literal p cs)"

definition str_contains :: "string \<Rightarrow> string \<Rightarrow> bool" where
  "str_contains text s = search_literal (lower text) (lower s)"

definition search_mask :: "string \<Rightarrow> row \<Rightarrow> bool" where
  "search_mask search_text r = list_ex (\<lambda>v. str_contains search_text (astype_str v)) r"

definition filtered ::
  "dataframe \<Rightarrow> string list \<Rightarrow> string list \<Rightarrow> string list \<Rightarrow> string list \<Rightarrow> string
     \<Rightarrow> error + dataframe" where
  "filtered df customer_choice sam_choice state_choice zip_choice search_text =
     (case dimension_filtered df customer_choice sam_choice state_choice zip_choice of
        Inl e \<Rightarrow> Inl e
      | Inr f \<Rightarrow>
          if search_text \<noteq> []
          then Inr (f\<lparr>rows := filter (search_mask search_text) (rows f)\<rparr>)
          else Inr f)"

text \<open>\<^verbatim>\<open>len(filtered)\<close>, the count shown on line 161.\<close>

definition len_filtered :: "error + dataframe \<Rightarrow> error + nat" where
  "len_filtered x = (case x of Inl e \<Rightarrow> Inl e | Inr f \<Rightarrow> Inr (length (rows f)))"

section \<open>Loading and cleaning (lines 50 to 68)\<close>

text \<open>
  \<open>load_data\<close> takes the frame \<^verbatim>\<open>read_excel\<close> returned. Python's \<^verbatim>\<open>str.strip\<close> removes the
  ASCII white space characters: tab to carriage return, the four separators 28 to 31, and
  the blank.
\<close>

definition is_space :: "char \<Rightarrow> bool" where
  "is_space c = (let n = (of_char c :: nat) in (9 \<le> n \<and> n \<le> 13) \<or> (28 \<le> n \<and> n \<le> 32))"

definition strip :: "string \<Rightarrow> string" where
  "strip s = dropWhile is_space (rev (dropWhile is_space (rev s)))"

definition is_digit :: "char \<Rightarrow> bool" where
  "is_digit c = (CHR ''0'' \<le> c \<and> c \<le> CHR ''9'')"

text \<open>\<^verbatim>\<open>str.extract(r"(\d{5})", expand=False)\<close>: the leftmost five digits in a row, missing
  when there are none; then \<^verbatim>\<open>fillna\<close>.\<close>

fun str_extract_d5 :: "string \<Rightarrow> cell" where
  "str_extract_d5 [] = NaN"
| "str_extract_d5 (c # cs) =
     (if 5 \<le> length (c # cs) \<and> list_all is_digit (take 5 (c # cs))
      then Str (take 5 (c # cs))
      else str_extract_d5 cs)"

definition fillna :: "string \<Rightarrow> cell \<Rightarrow> cell" where
  "fillna d v = (case v of NaN \<Rightarrow> Str d | Str s \<Rightarrow> Str s)"

text \<open>\<^verbatim>\<open>df[c] = f(df[c])\<close> on one row, and \<^verbatim>\<open>df.rename(columns={old: new})\<close>.\<close>

definition assign_col :: "string list \<Rightarrow> string \<Rightarrow> (cell \<Rightarrow> cell) \<Rightarrow> row \<Rightarrow> row" where
  "assign_col cols c f r = map (\<lambda>(l, v). if l = c then f v else v) (zip cols r)"

definition rename_col :: "string \<Rightarrow> string \<Rightarrow> string list \<Rightarrow> string list" where
  "rename_col old new cols = map (\<lambda>l. if l = old then new else l) cols"

definition zip_like :: "string \<Rightarrow> bool" where
  "zip_like c = (lower c \<in> set [''zip'', ''zipcode'', ''postal'', ''postal_code''])"

definition zip_col :: "string list \<Rightarrow> string option" where
  "zip_col cols =
     (case find zip_like cols of
        Some c \<Rightarrow> Some c
      | None \<Rightarrow> if ''Zip'' \<in> set cols then Some ''Zip'' else None)"

definition customer_like :: "string \<Rightarrow> bool" where
  "customer_like c =
     (str_contains ''customer'' c \<or> str_contains ''account'' c \<or> str_contains ''company'' c)"

definition strip_cell :: "cell \<Rightarrow> cell" where
  "strip_cell v = (case v of NaN \<Rightarrow> NaN | Str s \<Rightarrow> Str (strip s))"

definition load_data :: "dataframe \<Rightarrow> dataframe" where
  "load_data raw =
     (let df0 = raw\<lparr>columns := map strip (columns raw)\<rparr>;
          df1 = (if has_col df0 ''State''
                 then df0\<lparr>rows := map (assign_col (columns df0) ''State''
                                          (\<lambda>v. Str (upper (strip (astype_str v))))) (rows df0)\<rparr>
                 else df0);
          df2 = (case zip_col (columns df1) of
                   None \<Rightarrow> df1
                 | Some zc \<Rightarrow>
                     df1\<lparr>columns := rename_col zc ''Zip'' (columns df1),
                         rows := map (assign_col (columns df1) zc
                                        (\<lambda>v. fillna '''' (str_extract_d5 (astype_str v)))) (rows df1)\<rparr>);
          df3 = (if \<not> has_col df2 ''Customer''
                 then (case find customer_like (columns df2) of
                         None \<Rightarrow> df2
                       | Some c \<Rightarrow> df2\<lparr>columns := rename_col c ''Customer'' (columns df2)\<rparr>)
                 else df2)
      in df3\<lparr>rows := map (map strip_cell) (rows df3)\<rparr>)"

section \<open>ZIP to coordinates, map and table (lines 166 to 232)\<close>

text \<open>
  The geocoder is outside the repository: \<open>nomi\<close> stands for
  \<^verbatim>\<open>pgeocode.Nominatim("US").query_postal_code\<close>, from the list of codes to the rows of its
  answer (postal code, latitude, longitude). A coordinate is of any type \<open>'g\<close>; \<open>None\<close> is
  the missing marker. \<^verbatim>\<open>to_dict(orient="index")\<close> refuses an index with a repeated entry.
\<close>

type_synonym 'g geo_rec = "'g option \<times> 'g option"

definition geocode_zips ::
  "(cell list \<Rightarrow> (cell \<times> 'g geo_rec) list) \<Rightarrow> cell list \<Rightarrow> error + (string \<rightharpoonup> 'g geo_rec)" where
  "geocode_zips nomi zips =
     (let out = nomi (unique zips);
          index = map (\<lambda>(code, rec). astype_str code) out
      in if distinct index then Inr (map_of (zip index (map snd out)))
         else Inl (ValueError ''DataFrame index must be unique''))"

text \<open>\<^verbatim>\<open>df.empty\<close>\<close>

definition empty :: "dataframe \<Rightarrow> bool" where
  "empty df = (rows df = [] \<or> columns df = [])"

definition zip_map_of ::
  "(cell list \<Rightarrow> (cell \<times> 'g geo_rec) list) \<Rightarrow> dataframe \<Rightarrow> error + (string \<rightharpoonup> 'g geo_rec)" where
  "zip_map_of nomi f =
     (if \<not> empty f
      then (case getitem f ''Zip'' of Inl e \<Rightarrow> Inl e | Inr zs \<Rightarrow> geocode_zips nomi zs)
      else Inr Map.empty)"

record 'g geo_frame =
  frame :: dataframe
  lat :: "'g option list"
  lon :: "'g option list"

text \<open>The body of the loop of \<open>attach_coords\<close>, for one ZIP.\<close>

definition coords :: "(string \<rightharpoonup> 'g geo_rec) \<Rightarrow> string \<Rightarrow> 'g geo_rec" where
  "coords zip_map z =
     (case zip_map z of
        None \<Rightarrow> (None, None)
      | Some rec \<Rightarrow> (case fst rec of None \<Rightarrow> (None, None) | Some la \<Rightarrow> (Some la, snd rec)))"

definition attach_coords :: "(string \<rightharpoonup> 'g geo_rec) \<Rightarrow> dataframe \<Rightarrow> error + 'g geo_frame" where
  "attach_coords zip_map df_in =
     (if empty df_in
      then Inr \<lparr>frame = df_in, lat = replicate (length (rows df_in)) None,
                lon = replicate (length (rows df_in)) None\<rparr>
      else (case getitem df_in ''Zip'' of
              Inl e \<Rightarrow> Inl e
            | Inr zs \<Rightarrow>
                (let recs = map (\<lambda>z. coords zip_map (astype_str z)) zs
                 in Inr \<lparr>frame = df_in, lat = map fst recs, lon = map snd recs\<rparr>)))"

text \<open>\<^verbatim>\<open>geo.dropna(subset=["lat","lon"])\<close>: the rows the map draws, with their coordinates.\<close>

definition dropna_lat_lon :: "'g geo_frame \<Rightarrow> (row \<times> 'g \<times> 'g) list" where
  "dropna_lat_lon geo =
     List.map_filter
       (\<lambda>(r, la, lo). case la of None \<Rightarrow> None
                     | Some a \<Rightarrow> (case lo of None \<Rightarrow> None | Some b \<Rightarrow> Some (r, a, b)))
       (zip (rows (frame geo)) (zip (lat geo) (lon geo)))"

datatype 'g figure = Scatter_mapbox "(row \<times> 'g \<times> 'g) list" | Density_mapbox "(row \<times> 'g \<times> 'g) list"

datatype 'g map_output = Plotly_chart "'g figure" | Info string

definition map_section :: "string \<Rightarrow> 'g geo_frame \<Rightarrow> 'g map_output" where
  "map_section map_view geo =
     (let has_coords = (length (dropna_lat_lon geo) > 0)
      in if has_coords
         then (if map_view = ''Pin Map''
               then Plotly_chart (Scatter_mapbox (dropna_lat_lon geo))
               else Plotly_chart (Density_mapbox (dropna_lat_lon geo)))
         else Info ''No mappable locations for current filters.'')"

definition stakeholder_columns :: "string list" where
  "stakeholder_columns =
     [''WSC_SAM'', ''WSC_VP_Sales'', ''WSC_RM'', ''WSC_Title'', ''WSC_Contact'',
      ''Siding_Specialist'', ''Regional / Market VP/SVP'',
      ''Area Manager / District Manager / Market Manager'', ''General Manager / MP'',
      ''Email'', ''Phone'']"

definition selected_stakeholders :: "dataframe \<Rightarrow> (string \<Rightarrow> bool) \<Rightarrow> string list" where
  "selected_stakeholders df checkbox = filter (\<lambda>c. has_col df c \<and> checkbox c) stakeholder_columns"

definition append_new :: "dataframe \<Rightarrow> string list \<Rightarrow> string \<Rightarrow> string list" where
  "append_new df cols c = (if has_col df c \<and> c \<notin> set cols then cols @ [c] else cols)"

definition cols_to_show :: "dataframe \<Rightarrow> string list \<Rightarrow> string list" where
  "cols_to_show df selected =
     foldl (append_new df)
       (foldl (append_new df) [''Customer'', ''WSC_SAM'', ''State'', ''Zip''] selected)
       [''City'', ''Address'', ''Branch'', ''Region'', ''Division'']"

definition filtered_to_display :: "dataframe \<Rightarrow> dataframe \<Rightarrow> string list \<Rightarrow> dataframe" where
  "filtered_to_display df f selected =
     (let cs = cols_to_show df selected
      in if list_all (has_col f) cs
         then \<lparr>columns = cs, rows = map (\<lambda>r. map (cell_of (columns f) r) cs) (rows f)\<rparr>
         else f)"

text \<open>
  The records of \<^verbatim>\<open>to_csv(index=False)\<close>: the header, then one record per row, a missing
  cell written as the empty field. Quoting and the joining into bytes are left out.
\<close>

definition to_csv :: "dataframe \<Rightarrow> string list list" where
  "to_csv df = columns df # map (map (\<lambda>v. case v of NaN \<Rightarrow> [] | Str s \<Rightarrow> s)) (rows df)"

section \<open>Reset (lines 75 to 90)\<close>

text \<open>
  The state a rerun of the script sees: the session state, and the store behind
  \<^verbatim>\<open>st.cache_data\<close>. \<open>load_data\<close> (line 49) and \<open>geocode_zips\<close> (line 166) carry the same
  decorator, and \<^verbatim>\<open>st.cache_data.clear()\<close> empties the cache of every function that does.
  A widget with a key that the session state does not hold shows its default.
\<close>

datatype widget_value = Selection "string list" | Text string | Checked bool

record 'g app_state =
  session_state :: "string \<rightharpoonup> widget_value"
  load_data_cache :: "dataframe option"
  geocode_zips_cache :: "cell list \<rightharpoonup> (string \<rightharpoonup> 'g geo_rec)"

definition cache_data_clear :: "'g app_state \<Rightarrow> 'g app_state" where
  "cache_data_clear st = st\<lparr>load_data_cache := None, geocode_zips_cache := Map.empty\<rparr>"

text \<open>The body of the button's branch; \<open>new_uuid\<close> is the value \<^verbatim>\<open>uuid.uuid4()\<close> returns.\<close>

definition reset_filters :: "string \<Rightarrow> 'g app_state \<Rightarrow> 'g app_state" where
  "reset_filters new_uuid st =
     (let s1 = st\<lparr>session_state := Map.empty\<rparr>;
          s2 = cache_data_clear s1
      in s2\<lparr>session_state := (session_state s2)(''widget_suffix'' \<mapsto> Text new_uuid)\<rparr>)"

definition suffix :: "'g app_state \<Rightarrow> string" where
  "suffix st = (case session_state st ''widget_suffix'' of Some (Text s) \<Rightarrow> s | _ \<Rightarrow> [])"

definition multiselect :: "'g app_state \<Rightarrow> string \<Rightarrow> string list" where
  "multiselect st key = (case session_state st key of Some (Selection vs) \<Rightarrow> vs | _ \<Rightarrow> [])"

definition text_input :: "'g app_state \<Rightarrow> string \<Rightarrow> string" where
  "text_input st key = (case session_state st key of Some (Text s) \<Rightarrow> s | _ \<Rightarrow> [])"

definition checkbox :: "'g app_state \<Rightarrow> string \<Rightarrow> bool" where
  "checkbox st key = (case session_state st key of Some (Checked b) \<Rightarrow> b | _ \<Rightarrow> False)"

definition customer_choice :: "'g app_state \<Rightarrow> string list" where
  "customer_choice st = multiselect st (''cust_'' @ suffix st)"

definition sam_choice :: "'g app_state \<Rightarrow> string list" where
  "sam_choice st = multiselect st (''sam_'' @ suffix st)"

definition state_choice :: "'g app_state \<Rightarrow> string list" where
  "state_choice st = multiselect st (''state_'' @ suffix st)"

definition zip_choice :: "'g app_state \<Rightarrow> string list" where
  "zip_choice st = multiselect st (''zip_'' @ suffix st)"

definition search_text :: "'g app_state \<Rightarrow> string" where
  "search_text st = text_input st (''search_'' @ suffix st)"

definition slicer :: "'g app_state \<Rightarrow> string \<Rightarrow> bool" where
  "slicer st col_name = checkbox st (''slicer_'' @ col_name @ ''_'' @ suffix st)"

section \<open>Vocabulary of the specification\<close>

text \<open>
  A selection is satisfied by a row when it is empty or holds the row's value. A
  restriction is a list of pairs of a column and a selection; the values of a dimension
  in a restricted frame are the non-missing cells of its column over the rows that
  satisfy every pair. An option list is strictly ascending: sorted and free of duplicates.
\<close>

definition chosen :: "string list \<Rightarrow> row \<Rightarrow> string \<Rightarrow> string list \<Rightarrow> bool" where
  "chosen cols r c vs = (vs = [] \<or> isin (cell_of cols r c) vs)"

definition restricted_by :: "dataframe \<Rightarrow> (string \<times> string list) list \<Rightarrow> row \<Rightarrow> bool" where
  "restricted_by df sels r = list_all (\<lambda>(c, vs). chosen (columns df) r c vs) sels"

definition values_in :: "dataframe \<Rightarrow> (row \<Rightarrow> bool) \<Rightarrow> string \<Rightarrow> string set" where
  "values_in df keep d =
     {v. \<exists>r \<in> set (rows df). keep r \<and> cell_of (columns df) r d = Str v}"

definition option_list :: "string list \<Rightarrow> string set \<Rightarrow> bool" where
  "option_list vs S = (sorted vs \<and> distinct vs \<and> set vs = S)"

text \<open>A selection \<open>vs'\<close> constrains at least as much as \<open>vs\<close>: \<open>vs\<close> is empty (no
  constraint), or \<open>vs'\<close> is a non-empty part of it.\<close>

definition narrows :: "string list \<Rightarrow> string list \<Rightarrow> bool" where
  "narrows vs' vs = (vs = [] \<or> (vs' \<noteq> [] \<and> set vs' \<subseteq> set vs))"

text \<open>Five digits in a row at position \<open>i\<close> of a string; the first such run; no such run.\<close>

definition run5_at :: "string \<Rightarrow> nat \<Rightarrow> bool" where
  "run5_at s i = (i + 5 \<le> length s \<and> list_all is_digit (take 5 (drop i s)))"

definition first_run5 :: "string \<Rightarrow> string \<Rightarrow> bool" where
  "first_run5 s d = (\<exists>i. run5_at s i \<and> (\<forall>j < i. \<not> run5_at s j) \<and> d = take 5 (drop i s))"

definition no_run5 :: "string \<Rightarrow> bool" where
  "no_run5 s = (\<forall>i. \<not> run5_at s i)"

text \<open>The ZIP-like label of a list of labels: the first one whose lower-case form is
  one of the four names (the literal \<^verbatim>\<open>Zip\<close> is such a label).\<close>

definition first_zip_label :: "string list \<Rightarrow> string \<Rightarrow> bool" where
  "first_zip_label cols zc =
     (\<exists>i < length cols. cols ! i = zc
        \<and> lower zc \<in> {''zip'', ''zipcode'', ''postal'', ''postal_code''}
        \<and> (\<forall>j < i. lower (cols ! j) \<notin> {''zip'', ''zipcode'', ''postal'', ''postal_code''}))"

text \<open>A ZIP the geocoder's answer does not resolve: no record, or a record without a
  latitude.\<close>

definition unresolved :: "(string \<rightharpoonup> 'g geo_rec) \<Rightarrow> string \<Rightarrow> bool" where
  "unresolved zip_map z = (case zip_map z of None \<Rightarrow> True | Some rec \<Rightarrow> fst rec = None)"

text \<open>The rows of the geocoder's answer hold a record with a latitude for a ZIP; and the
  field the export writes for a cell.\<close>

definition answered :: "(cell \<times> 'g geo_rec) list \<Rightarrow> string \<Rightarrow> bool" where
  "answered out z = (\<exists>p \<in> set out. astype_str (fst p) = z \<and> fst (snd p) \<noteq> None)"

definition csv_field :: "cell \<Rightarrow> string" where
  "csv_field v = (case v of NaN \<Rightarrow> [] | Str s \<Rightarrow> s)"

section \<open>Example frames\<close>

text \<open>The scenario of the specification, before and after loading, with a fourth row
  that has no state and no ZIP; and two frames that lack a dimension column.\<close>

definition raw_accounts :: dataframe where
  "raw_accounts =
     \<lparr>columns = ['' Customer'', ''WSC_SAM'', ''State'', ''Postal_Code ''],
      rows = [[Str ''Acme'', Str ''Ann'', Str ''wi '', Str ''54401-1''],
              [Str ''Acme'', Str ''Ann'', Str ''WI'', Str '' 54402''],
              [Str ''Beta'', Str ''Bob'', Str ''MN'', Str ''55401''],
              [Str ''Gamma'', NaN, NaN, NaN]]\<rparr>"

definition accounts :: dataframe where
  "accounts =
     \<lparr>columns = [''Customer'', ''WSC_SAM'', ''State'', ''Zip''],
      rows = [[Str ''Acme'', Str ''Ann'', Str ''WI'', Str ''54401''],
              [Str ''Acme'', Str ''Ann'', Str ''WI'', Str ''54402''],
              [Str ''Beta'', Str ''Bob'', Str ''MN'', Str ''55401''],
              [Str ''Gamma'', NaN, Str ''NAN'', Str '''']]\<rparr>"

definition accounts_without_state :: dataframe where
  "accounts_without_state =
     \<lparr>columns = [''Customer'', ''WSC_SAM'', ''Zip''],
      rows = [[Str ''Acme'', Str ''Ann'', Str ''54401''],
              [Str ''Beta'', Str ''Bob'', Str ''55401'']]\<rparr>"

definition accounts_without_zip :: dataframe where
  "accounts_without_zip =
     \<lparr>columns = [''Customer'', ''WSC_SAM'', ''State''],
      rows = [[Str ''Acme'', Str ''Ann'', Str ''WI''],
              [Str ''Beta'', Str ''Bob'', Str ''MN'']]\<rparr>"

text \<open>A session after some use: a customer selected, a search typed, a stakeholder column
  ticked, the frame loaded and one ZIP set geocoded. Coordinates are whole degrees here.\<close>

definition visited :: "int app_state" where
  "visited =
     \<lparr>session_state =
        [''widget_suffix'' \<mapsto> Text ''u1'',
         ''cust_u1'' \<mapsto> Selection [''Acme''],
         ''search_u1'' \<mapsto> Text ''ann'',
         ''slicer_Email_u1'' \<mapsto> Checked True],
      load_data_cache = Some accounts,
      geocode_zips_cache =
        [[Str ''54401'', Str ''54402''] \<mapsto> [''54401'' \<mapsto> (Some 45, Some (- 90))]]\<rparr>"

text \<open>An answer of the geocoder that knows \<^verbatim>\<open>54402\<close> and \<^verbatim>\<open>55401\<close> only.\<close>

definition known_zips :: "string \<rightharpoonup> int geo_rec" where
  "known_zips =
     [''54401'' \<mapsto> (None, None), ''54402'' \<mapsto> (Some 45, Some (- 90)),
      ''55401'' \<mapsto> (Some 45, Some (- 93))]"

section \<open>Option lists\<close>

lemma set_dropna: "set (dropna xs) = {s. Str s \<in> set xs}"
  by (induction xs rule: dropna.induct) auto

lemma set_unique_from: "set (unique_from seen xs) = set xs - set seen"
  by (induction xs arbitrary: seen) auto

lemma distinct_unique_from: "distinct (unique_from seen xs)"
  by (induction xs arbitrary: seen) (auto simp: set_unique_from)

lemma set_options_of: "set (options_of s) = {v. Str v \<in> set s}"
  by (simp add: options_of_def sorted_py_def unique_def set_unique_from set_dropna)

lemma sorted_options_of: "sorted (options_of s)"
  by (simp add: options_of_def sorted_py_def)

lemma distinct_options_of: "distinct (options_of s)"
  by (simp add: options_of_def sorted_py_def unique_def distinct_unique_from)

lemma option_list_options_of:
  "option_list (options_of (series (df\<lparr>rows := filter keep (rows df)\<rparr>) d)) (values_in df keep d)"
  by (force simp: option_list_def sorted_options_of distinct_options_of set_options_of
      series_def values_in_def image_iff)

lemma option_list_options_of_all:
  "option_list (options_of (series df d)) (values_in df (\<lambda>r. True) d)"
  using option_list_options_of [where df = df and keep = "\<lambda>r. True" and d = d] by simp

lemma cell_of_absent: "c \<notin> set cols \<Longrightarrow> cell_of cols r c = NaN"
proof -
  assume "c \<notin> set cols"
  then have "c \<notin> fst ` set (zip cols r)" by (auto dest: set_zip_leftD)
  then have "map_of (zip cols r) c = None" by (simp add: map_of_eq_None_iff)
  then show ?thesis by (simp add: cell_of_def)
qed

lemma values_in_absent: "\<not> has_col df d \<Longrightarrow> values_in df keep d = {}"
  by (simp add: values_in_def has_col_def cell_of_absent)

lemma restricted_by_0: "restricted_by df [] = (\<lambda>r. True)"
  by (rule ext) (simp add: restricted_by_def)

lemma restricted_by_1: "restricted_by df [(a, x)] = (\<lambda>r. chosen (columns df) r a x)"
  by (rule ext) (simp add: restricted_by_def)

lemma restricted_by_2:
  "restricted_by df [(a, x), (b, y)] =
     (\<lambda>r. chosen (columns df) r a x \<and> chosen (columns df) r b y)"
  by (rule ext) (simp add: restricted_by_def)

lemma restricted_by_3:
  "restricted_by df [(a, x), (b, y), (c, z)] =
     (\<lambda>r. chosen (columns df) r a x \<and> chosen (columns df) r b y \<and> chosen (columns df) r c z)"
  by (rule ext) (simp add: restricted_by_def)

lemma restricted_by_4:
  "restricted_by df [(a, x), (b, y), (c, z), (d, w)] =
     (\<lambda>r. chosen (columns df) r a x \<and> chosen (columns df) r b y \<and> chosen (columns df) r c z
          \<and> chosen (columns df) r d w)"
  by (rule ext) (simp add: restricted_by_def)

lemma customers_option_list:
  "option_list (customers df) (values_in df (\<lambda>r. True) ''Customer'')"
proof (cases "has_col df ''Customer''")
  case True
  then show ?thesis by (simp add: customers_def option_list_options_of_all)
next
  case False
  then show ?thesis by (simp add: customers_def values_in_absent option_list_def)
qed

lemma sam_vals_option_list:
  assumes "cc \<noteq> [] \<longrightarrow> has_col df ''Customer''"
  shows "option_list (sam_vals df cc)
           (values_in df (\<lambda>r. chosen (columns df) r ''Customer'' cc) ''WSC_SAM'')"
proof (cases "has_col df ''WSC_SAM''")
  case False
  then show ?thesis by (simp add: sam_vals_def values_in_absent option_list_def)
next
  case sam: True
  show ?thesis
  proof (cases "cc = []")
    case True
    with sam show ?thesis
      by (simp add: sam_vals_def chosen_def option_list_options_of_all)
  next
    case False
    with assms sam show ?thesis
      using option_list_options_of [where df = df and d = "''WSC_SAM''"
          and keep = "\<lambda>r. isin (cell_of (columns df) r ''Customer'') cc"]
      by (simp add: sam_vals_def chosen_def Let_def)
  qed
qed

section \<open>The subsets behind the option lists and the filtered rows\<close>

lemma state_subset_eq:
  assumes "cc \<noteq> [] \<longrightarrow> has_col df ''Customer''" and "sc \<noteq> [] \<longrightarrow> has_col df ''WSC_SAM''"
  shows "state_subset df cc sc =
     Inr (df\<lparr>rows := filter (\<lambda>r. chosen (columns df) r ''Customer'' cc
                                \<and> chosen (columns df) r ''WSC_SAM'' sc) (rows df)\<rparr>)"
  using assms
  by (cases "cc = []"; cases "sc = []")
     (simp_all add: state_subset_def select_isin_def has_col_def chosen_def conj_commute)

lemma state_vals_eq:
  assumes "has_col df ''State''"
    and "cc \<noteq> [] \<longrightarrow> has_col df ''Customer''" and "sc \<noteq> [] \<longrightarrow> has_col df ''WSC_SAM''"
  shows "state_vals df cc sc =
     Inr (options_of (series (df\<lparr>rows := filter (\<lambda>r. chosen (columns df) r ''Customer'' cc
                                \<and> chosen (columns df) r ''WSC_SAM'' sc) (rows df)\<rparr>) ''State''))"
  using assms(1) by (simp add: state_vals_def state_subset_eq [OF assms(2,3)] getitem_def has_col_def)

lemma zip_subset_eq:
  assumes "has_col df ''State''"
    and "cc \<noteq> [] \<longrightarrow> has_col df ''Customer''" and "sc \<noteq> [] \<longrightarrow> has_col df ''WSC_SAM''"
  shows "zip_subset df cc sc stc =
     Inr (df\<lparr>rows := filter (\<lambda>r. chosen (columns df) r ''Customer'' cc
                                \<and> chosen (columns df) r ''WSC_SAM'' sc
                                \<and> chosen (columns df) r ''State'' stc) (rows df)\<rparr>)"
  using assms(1)
  by (cases "stc = []")
     (simp_all add: zip_subset_def state_vals_eq [OF assms] state_subset_eq [OF assms(2,3)]
        select_isin_def has_col_def chosen_def conj_commute conj_left_commute)

lemma zip_vals_eq:
  assumes "has_col df ''State''" and "has_col df ''Zip''"
    and "cc \<noteq> [] \<longrightarrow> has_col df ''Customer''" and "sc \<noteq> [] \<longrightarrow> has_col df ''WSC_SAM''"
  shows "zip_vals df cc sc stc =
     Inr (options_of (series (df\<lparr>rows := filter (\<lambda>r. chosen (columns df) r ''Customer'' cc
                                \<and> chosen (columns df) r ''WSC_SAM'' sc
                                \<and> chosen (columns df) r ''State'' stc) (rows df)\<rparr>) ''Zip''))"
  using assms(2)
  by (simp add: zip_vals_def zip_subset_eq [OF assms(1,3,4)] getitem_def has_col_def)

lemma dimension_filtered_eq:
  assumes "has_col df ''State''" and "has_col df ''Zip''"
    and "cc \<noteq> [] \<longrightarrow> has_col df ''Customer''" and "sc \<noteq> [] \<longrightarrow> has_col df ''WSC_SAM''"
  shows "dimension_filtered df cc sc stc zc =
     Inr (df\<lparr>rows := filter (\<lambda>r. chosen (columns df) r ''Customer'' cc
                                \<and> chosen (columns df) r ''WSC_SAM'' sc
                                \<and> chosen (columns df) r ''State'' stc
                                \<and> chosen (columns df) r ''Zip'' zc) (rows df)\<rparr>)"
  unfolding dimension_filtered_def zip_vals_eq [OF assms] sum.case
  using assms
  by (cases "cc = []"; cases "sc = []"; cases "stc = []"; cases "zc = []")
     (simp_all add: select_isin_def has_col_def chosen_def conj_commute conj_left_commute)

lemma accounts_wf: "wf_frame accounts"
  by (simp add: wf_frame_def accounts_def)

lemma accounts_cols:
  "has_col accounts ''Customer''" "has_col accounts ''WSC_SAM''"
  "has_col accounts ''State''" "has_col accounts ''Zip''"
  by (simp_all add: has_col_def accounts_def)

section \<open>Claims about the option lists\<close>

text \<open>
  C1, as the specification states it, has the option list of each dimension restricted by
  the selections of the three other dimensions. The script restricts by the upstream
  selections only: with the state \<open>MN\<close> selected, the customer list of the example still
  offers \<open>Acme\<close>, which has no row in that state.
\<close>

theorem customers_ignore_downstream_counterexample:
  "\<not> option_list (customers accounts)
       (values_in accounts
          (restricted_by accounts [(''WSC_SAM'', []), (''State'', [''MN'']), (''Zip'', [])])
          ''Customer'')"
proof -
  have a: "customers accounts = [''Acme'', ''Beta'', ''Gamma'']"
    by code_simp
  have b: "''Acme'' \<notin> values_in accounts
       (restricted_by accounts [(''WSC_SAM'', []), (''State'', [''MN'']), (''Zip'', [])])
       ''Customer''"
    by (simp add: values_in_def restricted_by_def chosen_def accounts_def cell_of_def)
  show ?thesis
    unfolding option_list_def a using b by auto
qed

text \<open>
  C1, amended: in a frame with a \<open>State\<close> and a \<open>Zip\<close> column, the option list of each
  dimension is the sorted, duplicate-free list of the non-missing values of its column in
  the frame restricted by the selections of the dimensions upstream of it (Customer by
  none, SAM by Customer, State by Customer and SAM, Zip by Customer, SAM and State); an
  empty selection restricts nothing. A non-empty selection is of a column the frame has,
  as the widgets grant, since an absent column has no options.
\<close>

theorem option_lists_follow_upstream_selections:
  assumes "wf_frame df" and "has_col df ''State''" and "has_col df ''Zip''"
    and "cc \<noteq> [] \<longrightarrow> has_col df ''Customer''" and "sc \<noteq> [] \<longrightarrow> has_col df ''WSC_SAM''"
  shows "option_list (customers df) (values_in df (restricted_by df []) ''Customer'')
       \<and> option_list (sam_vals df cc)
           (values_in df (restricted_by df [(''Customer'', cc)]) ''WSC_SAM'')
       \<and> (\<exists>vs. state_vals df cc sc = Inr vs
             \<and> option_list vs
                 (values_in df (restricted_by df [(''Customer'', cc), (''WSC_SAM'', sc)])
                    ''State''))
       \<and> (\<exists>vs. zip_vals df cc sc stc = Inr vs
             \<and> option_list vs
                 (values_in df
                    (restricted_by df [(''Customer'', cc), (''WSC_SAM'', sc), (''State'', stc)])
                    ''Zip''))"
proof -
  have c: "option_list (customers df) (values_in df (restricted_by df []) ''Customer'')"
    by (simp add: restricted_by_0 customers_option_list)
  have s: "option_list (sam_vals df cc)
      (values_in df (restricted_by df [(''Customer'', cc)]) ''WSC_SAM'')"
    by (simp add: restricted_by_1 sam_vals_option_list [OF assms(4)])
  have st: "\<exists>vs. state_vals df cc sc = Inr vs
      \<and> option_list vs
          (values_in df (restricted_by df [(''Customer'', cc), (''WSC_SAM'', sc)]) ''State'')"
    by (simp add: restricted_by_2 state_vals_eq [OF assms(2,4,5)] option_list_options_of)
  have z: "\<exists>vs. zip_vals df cc sc stc = Inr vs
      \<and> option_list vs
          (values_in df
             (restricted_by df [(''Customer'', cc), (''WSC_SAM'', sc), (''State'', stc)])
             ''Zip'')"
    by (simp add: restricted_by_3 zip_vals_eq [OF assms(2,3,4,5)] option_list_options_of)
  from c s st z show ?thesis by blast
qed

theorem option_lists_follow_upstream_selections_witness:
  "wf_frame accounts \<and> has_col accounts ''State'' \<and> has_col accounts ''Zip''
   \<and> has_col accounts ''Customer''
   \<and> option_list (customers accounts) (values_in accounts (restricted_by accounts []) ''Customer'')
   \<and> option_list (sam_vals accounts [''Acme''])
       (values_in accounts (restricted_by accounts [(''Customer'', [''Acme''])]) ''WSC_SAM'')
   \<and> (\<exists>vs. state_vals accounts [''Acme''] [] = Inr vs
         \<and> option_list vs
             (values_in accounts
                (restricted_by accounts [(''Customer'', [''Acme'']), (''WSC_SAM'', [])]) ''State''))
   \<and> (\<exists>vs. zip_vals accounts [''Acme''] [] [''WI''] = Inr vs
         \<and> option_list vs
             (values_in accounts
                (restricted_by accounts
                   [(''Customer'', [''Acme'']), (''WSC_SAM'', []), (''State'', [''WI''])])
                ''Zip''))"
proof -
  have c: "[''Acme''] \<noteq> [] \<longrightarrow> has_col accounts ''Customer''"
    by (simp add: accounts_cols)
  have s: "([] :: string list) \<noteq> [] \<longrightarrow> has_col accounts ''WSC_SAM''"
    by simp
  show ?thesis
    using option_lists_follow_upstream_selections
      [OF accounts_wf accounts_cols(3) accounts_cols(4) c s, of "[''WI'']"]
      accounts_wf accounts_cols
    by simp
qed

section \<open>Claims about the filtered rows\<close>

text \<open>
  C2: in a frame with a \<open>State\<close> and a \<open>Zip\<close> column, the dimension filters return exactly
  the rows of the frame that satisfy every non-empty selection by membership; an empty
  selection constrains nothing, and the four constraints are conjoined. The columns are
  unchanged. A non-empty selection is of a column the frame has.
\<close>

theorem filtered_rows_satisfy_every_selection:
  assumes "wf_frame df" and "has_col df ''State''" and "has_col df ''Zip''"
    and "cc \<noteq> [] \<longrightarrow> has_col df ''Customer''" and "sc \<noteq> [] \<longrightarrow> has_col df ''WSC_SAM''"
  shows "dimension_filtered df cc sc stc zc =
     Inr (df\<lparr>rows := filter
            (restricted_by df
               [(''Customer'', cc), (''WSC_SAM'', sc), (''State'', stc), (''Zip'', zc)])
            (rows df)\<rparr>)"
  by (simp add: restricted_by_4 dimension_filtered_eq [OF assms(2,3,4,5)])

theorem filtered_rows_satisfy_every_selection_witness:
  "wf_frame accounts \<and> has_col accounts ''State'' \<and> has_col accounts ''Zip''
   \<and> has_col accounts ''Customer''
   \<and> dimension_filtered accounts [''Acme''] [] [''WI''] [''54402''] =
       Inr (accounts\<lparr>rows := filter
              (restricted_by accounts
                 [(''Customer'', [''Acme'']), (''WSC_SAM'', []), (''State'', [''WI'']),
                  (''Zip'', [''54402''])])
              (rows accounts)\<rparr>)
   \<and> dimension_filtered accounts [''Acme''] [] [''WI''] [''54402''] =
       Inr (accounts\<lparr>rows := [[Str ''Acme'', Str ''Ann'', Str ''WI'', Str ''54402'']]\<rparr>)"
proof -
  have c: "[''Acme''] \<noteq> [] \<longrightarrow> has_col accounts ''Customer''"
    by (simp add: accounts_cols)
  have s: "([] :: string list) \<noteq> [] \<longrightarrow> has_col accounts ''WSC_SAM''"
    by simp
  have e: "dimension_filtered accounts [''Acme''] [] [''WI''] [''54402''] =
       Inr (accounts\<lparr>rows := [[Str ''Acme'', Str ''Ann'', Str ''WI'', Str ''54402'']]\<rparr>)"
    by code_simp
  show ?thesis
    using filtered_rows_satisfy_every_selection
      [OF accounts_wf accounts_cols(3) accounts_cols(4) c s, of "[''WI'']" "[''54402'']"]
      accounts_wf accounts_cols e
    by simp
qed

text \<open>
  C3, as the specification states it, has the row count fall or stay as a selection set
  grows. Membership makes a larger selection admit more rows: the example shows two
  rows for the customer \<open>Acme\<close> and three once \<open>Beta\<close> is added to the selection.
\<close>

theorem growing_selection_adds_rows_counterexample:
  "len_filtered (dimension_filtered accounts [''Acme''] [] [] []) = Inr 2
   \<and> len_filtered (dimension_filtered accounts [''Acme'', ''Beta''] [] [] []) = Inr 3"
  by code_simp

lemma narrows_chosen:
  "narrows vs' vs \<Longrightarrow> chosen cols r c vs' \<Longrightarrow> chosen cols r c vs"
  by (cases "cell_of cols r c") (auto simp: narrows_def chosen_def)

lemma subseq_filter_mono:
  "(\<And>x. P x \<Longrightarrow> Q x) \<Longrightarrow> subseq (filter P xs) (filter Q xs)"
proof -
  assume pq: "\<And>x. P x \<Longrightarrow> Q x"
  have "filter P xs = filter P (filter Q xs)"
    using pq by (auto intro: filter_cong)
  then show ?thesis
    by (metis subseq_filter_left)
qed

text \<open>
  C3, amended: the row count never rises when the selections constrain more, that is when
  in each dimension an empty selection is kept or replaced by any selection, or a
  non-empty selection is replaced by a non-empty part of it; the rows that remain are
  among the rows there were, in their order. Read backwards: adding a value to a
  non-empty selection set never removes rows.
\<close>

theorem narrower_selection_never_adds_rows:
  assumes "wf_frame df" and "has_col df ''State''" and "has_col df ''Zip''"
    and "cc' \<noteq> [] \<longrightarrow> has_col df ''Customer''" and "sc' \<noteq> [] \<longrightarrow> has_col df ''WSC_SAM''"
    and "narrows cc' cc" and "narrows sc' sc" and "narrows stc' stc" and "narrows zc' zc"
  shows "\<exists>f f'. dimension_filtered df cc sc stc zc = Inr f
           \<and> dimension_filtered df cc' sc' stc' zc' = Inr f'
           \<and> subseq (rows f') (rows f)
           \<and> length (rows f') \<le> length (rows f)"
proof -
  have c: "cc \<noteq> [] \<longrightarrow> has_col df ''Customer''"
    using assms(4,6) by (auto simp: narrows_def)
  have s: "sc \<noteq> [] \<longrightarrow> has_col df ''WSC_SAM''"
    using assms(5,7) by (auto simp: narrows_def)
  let ?P' = "\<lambda>r. chosen (columns df) r ''Customer'' cc' \<and> chosen (columns df) r ''WSC_SAM'' sc'
      \<and> chosen (columns df) r ''State'' stc' \<and> chosen (columns df) r ''Zip'' zc'"
  let ?P = "\<lambda>r. chosen (columns df) r ''Customer'' cc \<and> chosen (columns df) r ''WSC_SAM'' sc
      \<and> chosen (columns df) r ''State'' stc \<and> chosen (columns df) r ''Zip'' zc"
  have imp: "\<And>r. ?P' r \<Longrightarrow> ?P r"
    using assms(6-9) by (blast intro: narrows_chosen)
  have sub: "subseq (filter ?P' (rows df)) (filter ?P (rows df))"
    by (rule subseq_filter_mono) (rule imp)
  then have len: "length (filter ?P' (rows df)) \<le> length (filter ?P (rows df))"
    by (rule list_emb_length)
  show ?thesis
    unfolding dimension_filtered_eq [OF assms(2,3) c s]
      dimension_filtered_eq [OF assms(2,3,4,5)]
    using sub len by simp
qed

theorem narrower_selection_never_adds_rows_witness:
  "wf_frame accounts \<and> has_col accounts ''State'' \<and> has_col accounts ''Zip''
   \<and> has_col accounts ''Customer''
   \<and> narrows [''Acme''] [''Acme'', ''Beta''] \<and> narrows [''WI''] []
   \<and> (\<exists>f f'. dimension_filtered accounts [''Acme'', ''Beta''] [] [] [] = Inr f
           \<and> dimension_filtered accounts [''Acme''] [] [''WI''] [] = Inr f'
           \<and> subseq (rows f') (rows f)
           \<and> length (rows f') \<le> length (rows f))"
proof -
  have c: "[''Acme''] \<noteq> [] \<longrightarrow> has_col accounts ''Customer''"
    by (simp add: accounts_cols)
  have s: "([] :: string list) \<noteq> [] \<longrightarrow> has_col accounts ''WSC_SAM''"
    by simp
  have n1: "narrows [''Acme''] [''Acme'', ''Beta'']"
    by (simp add: narrows_def)
  have n2: "narrows ([] :: string list) []"
    by (simp add: narrows_def)
  have n3: "narrows [''WI''] []"
    by (simp add: narrows_def)
  show ?thesis
    using narrower_selection_never_adds_rows
      [OF accounts_wf accounts_cols(3) accounts_cols(4) c s n1 n2 n3 n2]
      accounts_wf accounts_cols n1 n3
    by simp
qed

text \<open>
  C9: the rows the filters and the search return are rows of the frame in the order the
  frame has them: a subsequence of its rows, namely the frame's rows that are among the
  survivors. The columns are unchanged.
\<close>

theorem filtering_keeps_row_order:
  assumes "wf_frame df" and "has_col df ''State''" and "has_col df ''Zip''"
    and "cc \<noteq> [] \<longrightarrow> has_col df ''Customer''" and "sc \<noteq> [] \<longrightarrow> has_col df ''WSC_SAM''"
  shows "\<exists>f. filtered df cc sc stc zc text = Inr f
           \<and> columns f = columns df
           \<and> subseq (rows f) (rows df)
           \<and> rows f = filter (\<lambda>r. r \<in> set (rows f)) (rows df)"
proof -
  let ?P = "\<lambda>r. chosen (columns df) r ''Customer'' cc \<and> chosen (columns df) r ''WSC_SAM'' sc
      \<and> chosen (columns df) r ''State'' stc \<and> chosen (columns df) r ''Zip'' zc"
  let ?Q = "\<lambda>r. ?P r \<and> (text = [] \<or> search_mask text r)"
  have eq: "filtered df cc sc stc zc text = Inr (df\<lparr>rows := filter ?Q (rows df)\<rparr>)"
    by (cases "text = []")
       (simp_all add: filtered_def dimension_filtered_eq [OF assms(2,3,4,5)] conj_commute)
  have self: "filter ?Q (rows df) = filter (\<lambda>r. r \<in> set (filter ?Q (rows df))) (rows df)"
    by (rule filter_cong) auto
  show ?thesis
    unfolding eq using self by simp
qed

theorem filtering_keeps_row_order_witness:
  "wf_frame accounts \<and> has_col accounts ''State'' \<and> has_col accounts ''Zip''
   \<and> has_col accounts ''Customer''
   \<and> (\<exists>f. filtered accounts [''Beta'', ''Acme''] [] [] [] ''5440'' = Inr f
           \<and> columns f = columns accounts
           \<and> subseq (rows f) (rows accounts)
           \<and> rows f = filter (\<lambda>r. r \<in> set (rows f)) (rows accounts))"
proof -
  have c: "[''Beta'', ''Acme''] \<noteq> [] \<longrightarrow> has_col accounts ''Customer''"
    by (simp add: accounts_cols)
  have s: "([] :: string list) \<noteq> [] \<longrightarrow> has_col accounts ''WSC_SAM''"
    by simp
  show ?thesis
    using filtering_keeps_row_order
      [OF accounts_wf accounts_cols(3) accounts_cols(4) c s, of "[]" "[]" "''5440''"]
      accounts_wf accounts_cols
    by simp
qed

text \<open>
  C6 holds for the \<open>Customer\<close> and \<open>WSC_SAM\<close> columns, whose uses are guarded, and fails for
  \<open>State\<close> and \<open>Zip\<close>: line 110 reads the \<open>State\<close> column and line 116 the \<open>Zip\<close> column
  without a guard, so a frame that lacks one of them raises \<^verbatim>\<open>KeyError\<close> before any row
  is filtered.
\<close>

theorem missing_state_or_zip_column_raises:
  "state_vals accounts_without_state [] [] = Inl (KeyError ''State'')
   \<and> filtered accounts_without_state [] [] [] [] [] = Inl (KeyError ''State'')
   \<and> zip_vals accounts_without_zip [] [] [] = Inl (KeyError ''Zip'')
   \<and> filtered accounts_without_zip [] [] [] [] [] = Inl (KeyError ''Zip'')"
  by code_simp

lemma missing_customer_column_no_options:
  "\<not> has_col df ''Customer'' \<Longrightarrow> customers df = []"
  by (simp add: customers_def)

lemma missing_sam_column_no_options:
  "\<not> has_col df ''WSC_SAM'' \<Longrightarrow> sam_vals df cc = []"
  by (simp add: sam_vals_def)

section \<open>Claims about the search\<close>

lemma starts_with_prefix: "starts_with p s \<longleftrightarrow> prefix p s"
  by (induction p s rule: starts_with.induct) auto

lemma search_literal_sublist: "search_literal p s \<longleftrightarrow> sublist p s"
  by (induction s) (auto simp: starts_with_prefix sublist_Cons_right)

lemma cell_of_nth:
  assumes "distinct cols" and "length r = length cols" and "i < length cols"
  shows "cell_of cols r (cols ! i) = r ! i"
proof -
  have "map_of (zip cols r) (cols ! i) = Some (r ! i)"
    using assms by (simp add: map_of_zip_nth)
  then show ?thesis by (simp add: cell_of_def)
qed

lemma cells_of_row:
  assumes "distinct cols" and "length r = length cols"
  shows "set r = (\<lambda>c. cell_of cols r c) ` set cols"
proof
  show "set r \<subseteq> (\<lambda>c. cell_of cols r c) ` set cols"
  proof
    fix v assume "v \<in> set r"
    then obtain i where i: "i < length r" "r ! i = v" by (auto simp: in_set_conv_nth)
    with assms have "cell_of cols r (cols ! i) = v" by (simp add: cell_of_nth)
    moreover from i assms have "cols ! i \<in> set cols" by simp
    ultimately show "v \<in> (\<lambda>c. cell_of cols r c) ` set cols" by blast
  qed
  show "(\<lambda>c. cell_of cols r c) ` set cols \<subseteq> set r"
  proof
    fix v assume "v \<in> (\<lambda>c. cell_of cols r c) ` set cols"
    then obtain c where c: "c \<in> set cols" "v = cell_of cols r c" by blast
    then obtain i where i: "i < length cols" "cols ! i = c" by (auto simp: in_set_conv_nth)
    with assms c have "v = r ! i" using cell_of_nth [of cols r i] by simp
    with i assms show "v \<in> set r" by simp
  qed
qed

lemma search_mask_iff:
  assumes "distinct cols" and "length r = length cols"
  shows "search_mask text r \<longleftrightarrow>
     (\<exists>c \<in> set cols. sublist (lower text) (lower (astype_str (cell_of cols r c))))"
  unfolding search_mask_def list_ex_iff cells_of_row [OF assms]
  by (simp add: str_contains_def search_literal_sublist)

lemma select_isin_part:
  "select_isin df c vs = Inr g \<Longrightarrow> columns g = columns df \<and> set (rows g) \<subseteq> set (rows df)"
  by (auto simp: select_isin_def split: if_splits)

lemma dimension_filtered_part:
  assumes "dimension_filtered df cc sc stc zc = Inr f"
  shows "columns f = columns df \<and> set (rows f) \<subseteq> set (rows df)"
proof -
  from assms obtain f1 f2 f3 where
    s1: "(if cc \<noteq> [] then select_isin df ''Customer'' cc else Inr df) = Inr f1" and
    s2: "(if sc \<noteq> [] \<and> has_col f1 ''WSC_SAM'' then select_isin f1 ''WSC_SAM'' sc else Inr f1)
           = Inr f2" and
    s3: "(if stc \<noteq> [] then select_isin f2 ''State'' stc else Inr f2) = Inr f3" and
    s4: "(if zc \<noteq> [] then select_isin f3 ''Zip'' zc else Inr f3) = Inr f"
    unfolding dimension_filtered_def by (simp split: sum.splits)
  have p1: "columns f1 = columns df \<and> set (rows f1) \<subseteq> set (rows df)"
    using s1 select_isin_part [of df "''Customer''" cc f1] by (simp split: if_splits)
  have p2: "columns f2 = columns f1 \<and> set (rows f2) \<subseteq> set (rows f1)"
    using s2 select_isin_part [of f1 "''WSC_SAM''" sc f2] by (simp split: if_splits)
  have p3: "columns f3 = columns f2 \<and> set (rows f3) \<subseteq> set (rows f2)"
    using s3 select_isin_part [of f2 "''State''" stc f3] by (simp split: if_splits)
  have p4: "columns f = columns f3 \<and> set (rows f) \<subseteq> set (rows f3)"
    using s4 select_isin_part [of f3 "''Zip''" zc f] by (simp split: if_splits)
  from p1 p2 p3 p4 show ?thesis by auto
qed

lemma dimension_filtered_wf:
  assumes "wf_frame df" and "dimension_filtered df cc sc stc zc = Inr f"
  shows "wf_frame f"
  using assms(1) dimension_filtered_part [OF assms(2)]
  by (auto simp: wf_frame_def list_all_iff)

text \<open>
  C5: the search is applied to the frame the four dimension filters return. With an empty
  text that frame is the result. With a non-empty text a row of it is kept exactly when,
  for some column, the text written in lower case occurs as a contiguous part of the
  cell's string form written in lower case; the text is compared character by character,
  so a dot or a star in it stands for itself. The string form of a missing cell is
  \<^verbatim>\<open>nan\<close>.
\<close>

theorem search_keeps_rows_containing_text:
  assumes "wf_frame df" and "dimension_filtered df cc sc stc zc = Inr f"
  shows "\<exists>g. filtered df cc sc stc zc text = Inr g
           \<and> columns g = columns f
           \<and> (text = [] \<longrightarrow> rows g = rows f)
           \<and> (text \<noteq> [] \<longrightarrow>
                rows g = filter
                  (\<lambda>r. \<exists>c \<in> set (columns f).
                          sublist (lower text) (lower (astype_str (cell_of (columns f) r c))))
                  (rows f))"
proof (cases "text = []")
  case True
  then show ?thesis by (simp add: filtered_def assms(2))
next
  case False
  have wf: "wf_frame f"
    by (rule dimension_filtered_wf [OF assms])
  have "filter (search_mask text) (rows f) =
      filter (\<lambda>r. \<exists>c \<in> set (columns f).
                sublist (lower text) (lower (astype_str (cell_of (columns f) r c)))) (rows f)"
  proof (rule filter_cong [OF refl])
    fix r assume "r \<in> set (rows f)"
    with wf have "distinct (columns f)" and "length r = length (columns f)"
      by (auto simp: wf_frame_def list_all_iff)
    then show "search_mask text r \<longleftrightarrow>
        (\<exists>c \<in> set (columns f).
           sublist (lower text) (lower (astype_str (cell_of (columns f) r c))))"
      by (rule search_mask_iff)
  qed
  with False show ?thesis by (simp add: filtered_def assms(2))
qed

theorem search_keeps_rows_containing_text_witness:
  "wf_frame accounts
   \<and> dimension_filtered accounts [''Acme'', ''Gamma''] [] [] [] =
       Inr (accounts\<lparr>rows := [[Str ''Acme'', Str ''Ann'', Str ''WI'', Str ''54401''],
                               [Str ''Acme'', Str ''Ann'', Str ''WI'', Str ''54402''],
                               [Str ''Gamma'', NaN, Str ''NAN'', Str '''']]\<rparr>)
   \<and> filtered accounts [''Acme'', ''Gamma''] [] [] [] ''N.'' = Inr (accounts\<lparr>rows := []\<rparr>)
   \<and> filtered accounts [''Acme'', ''Gamma''] [] [] [] ''aN'' =
       Inr (accounts\<lparr>rows := [[Str ''Acme'', Str ''Ann'', Str ''WI'', Str ''54401''],
                               [Str ''Acme'', Str ''Ann'', Str ''WI'', Str ''54402''],
                               [Str ''Gamma'', NaN, Str ''NAN'', Str '''']]\<rparr>)
   \<and> (\<exists>g. filtered accounts [''Acme'', ''Gamma''] [] [] [] ''aN'' = Inr g
         \<and> rows g = filter
             (\<lambda>r. \<exists>c \<in> set (columns accounts).
                     sublist (lower ''aN'') (lower (astype_str (cell_of (columns accounts) r c))))
             [[Str ''Acme'', Str ''Ann'', Str ''WI'', Str ''54401''],
              [Str ''Acme'', Str ''Ann'', Str ''WI'', Str ''54402''],
              [Str ''Gamma'', NaN, Str ''NAN'', Str '''']])"
proof -
  have d: "dimension_filtered accounts [''Acme'', ''Gamma''] [] [] [] =
       Inr (accounts\<lparr>rows := [[Str ''Acme'', Str ''Ann'', Str ''WI'', Str ''54401''],
                               [Str ''Acme'', Str ''Ann'', Str ''WI'', Str ''54402''],
                               [Str ''Gamma'', NaN, Str ''NAN'', Str '''']]\<rparr>)"
    by code_simp
  have e1: "filtered accounts [''Acme'', ''Gamma''] [] [] [] ''N.'' = Inr (accounts\<lparr>rows := []\<rparr>)"
    by code_simp
  have e2: "filtered accounts [''Acme'', ''Gamma''] [] [] [] ''aN'' =
       Inr (accounts\<lparr>rows := [[Str ''Acme'', Str ''Ann'', Str ''WI'', Str ''54401''],
                               [Str ''Acme'', Str ''Ann'', Str ''WI'', Str ''54402''],
                               [Str ''Gamma'', NaN, Str ''NAN'', Str '''']]\<rparr>)"
    by code_simp
  have n: "''aN'' \<noteq> []" by simp
  show ?thesis
    using search_keeps_rows_containing_text [OF accounts_wf d, of "''aN''"] accounts_wf d e1 e2 n
    by auto
qed

section \<open>Claims about loading\<close>

lemma digit_not_space: "is_digit c \<Longrightarrow> \<not> is_space c"
  by (auto simp: is_digit_def is_space_def Let_def less_eq_char_def)

lemma strip_no_space: "list_all (\<lambda>c. \<not> is_space c) s \<Longrightarrow> strip s = s"
proof (cases s rule: rev_cases)
  case Nil
  then show ?thesis by (simp add: strip_def)
next
  case (snoc ys y)
  assume "list_all (\<lambda>c. \<not> is_space c) s"
  with snoc have y: "\<not> is_space y" and h: "\<not> is_space (hd (ys @ [y]))"
    by (cases ys; simp)+
  from y have "dropWhile is_space (rev (ys @ [y])) = rev (ys @ [y])" by simp
  then have "strip s = dropWhile is_space (ys @ [y])"
    using snoc by (simp add: strip_def)
  also have "\<dots> = ys @ [y]" using h by (cases ys) auto
  finally show ?thesis using snoc by simp
qed

lemma run5_at_0:
  "run5_at (c # cs) 0 \<longleftrightarrow> 5 \<le> length (c # cs) \<and> list_all is_digit (take 5 (c # cs))"
  by (simp add: run5_at_def)

lemma run5_at_Suc: "run5_at (c # cs) (Suc i) \<longleftrightarrow> run5_at cs i"
  by (auto simp: run5_at_def)

lemma run5_at_Nil: "\<not> run5_at [] i"
  by (simp add: run5_at_def)

lemma str_extract_d5_spec:
  "(\<forall>d. str_extract_d5 s = Str d \<longrightarrow> first_run5 s d) \<and> (str_extract_d5 s = NaN \<longrightarrow> no_run5 s)"
proof (induction s)
  case Nil
  then show ?case by (simp add: no_run5_def run5_at_Nil)
next
  case (Cons c cs)
  show ?case
  proof (cases "run5_at (c # cs) 0")
    case True
    then have "str_extract_d5 (c # cs) = Str (take 5 (c # cs))"
      by (simp add: run5_at_0)
    moreover have "first_run5 (c # cs) (take 5 (c # cs))"
      unfolding first_run5_def using True by (intro exI [of _ 0]) simp
    ultimately show ?thesis by simp
  next
    case False
    then have eq: "str_extract_d5 (c # cs) = str_extract_d5 cs"
      by (auto simp: run5_at_0)
    have a: "first_run5 (c # cs) d" if "first_run5 cs d" for d
    proof -
      from that obtain i where i: "run5_at cs i" "\<forall>j < i. \<not> run5_at cs j" "d = take 5 (drop i cs)"
        unfolding first_run5_def by blast
      have "\<forall>j < Suc i. \<not> run5_at (c # cs) j"
      proof (intro allI impI)
        fix j assume "j < Suc i"
        then show "\<not> run5_at (c # cs) j"
          using False i(2) by (cases j) (simp_all add: run5_at_Suc)
      qed
      with i show ?thesis
        unfolding first_run5_def by (intro exI [of _ "Suc i"]) (simp add: run5_at_Suc)
    qed
    have b: "no_run5 (c # cs)" if "no_run5 cs"
      unfolding no_run5_def
    proof
      fix i show "\<not> run5_at (c # cs) i"
        using False that by (cases i) (simp_all add: run5_at_Suc no_run5_def)
    qed
    from Cons a b show ?thesis unfolding eq by blast
  qed
qed

lemma str_extract_d5_digits: "str_extract_d5 s = Str d \<Longrightarrow> list_all is_digit d"
  by (induction s) (auto split: if_splits)

lemma zip_cell_spec:
  "\<exists>z. fillna [] (str_extract_d5 s) = Str z \<and> strip z = z
       \<and> (first_run5 s z \<or> (no_run5 s \<and> z = []))"
proof (cases "str_extract_d5 s")
  case NaN
  then show ?thesis
    using str_extract_d5_spec [of s] by (simp add: fillna_def strip_def)
next
  case (Str d)
  then have "list_all is_digit d" by (rule str_extract_d5_digits)
  then have "list_all (\<lambda>c. \<not> is_space c) d"
    by (auto simp: list_all_iff digit_not_space)
  then have "strip d = d" by (rule strip_no_space)
  with Str show ?thesis
    using str_extract_d5_spec [of s] by (simp add: fillna_def)
qed

lemma cell_of_Cons:
  "cell_of (l # cols) (v # r) c = (if c = l then v else cell_of cols r c)"
  by (simp add: cell_of_def)

lemma cell_of_Nil [simp]: "cell_of [] r c = NaN" "cell_of cols [] c = NaN"
  by (simp_all add: cell_of_def)

lemma cell_of_map_strip:
  "cell_of cols (map strip_cell r) c = strip_cell (cell_of cols r c)"
proof (induction cols arbitrary: r)
  case Nil
  then show ?case by (simp add: strip_cell_def)
next
  case (Cons l cols)
  then show ?case by (cases r) (simp_all add: cell_of_Cons strip_cell_def)
qed

lemma cell_of_assign_col:
  "length r = length cols \<Longrightarrow> c \<in> set cols \<Longrightarrow>
   cell_of cols (assign_col cols a f r) c = (if c = a then f (cell_of cols r c) else cell_of cols r c)"
proof (induction cols arbitrary: r)
  case Nil
  then show ?case by simp
next
  case (Cons l cols)
  then obtain v r' where r: "r = v # r'" by (cases r) auto
  show ?case
  proof (cases "c = l")
    case True
    then show ?thesis by (simp add: r assign_col_def cell_of_Cons)
  next
    case False
    with Cons.prems r have "length r' = length cols" "c \<in> set cols" by auto
    from Cons.IH [OF this] False show ?thesis
      by (simp add: r assign_col_def cell_of_Cons)
  qed
qed

lemma length_assign_col: "length r = length cols \<Longrightarrow> length (assign_col cols a f r) = length cols"
  by (simp add: assign_col_def)

lemma cell_of_rename_other:
  "c \<noteq> old \<Longrightarrow> c \<noteq> new \<Longrightarrow> cell_of (rename_col old new cols) r c = cell_of cols r c"
proof (induction cols arbitrary: r)
  case Nil
  then show ?case by (simp add: rename_col_def)
next
  case (Cons l cols)
  from Cons.IH [OF Cons.prems] have ih: "\<And>r. cell_of (rename_col old new cols) r c = cell_of cols r c" .
  show ?case
  proof (cases r)
    case Nil
    then show ?thesis by simp
  next
    case (Cons v r')
    with Cons.prems ih [of r'] show ?thesis
      by (simp add: rename_col_def cell_of_Cons)
  qed
qed

lemma cell_of_rename_first:
  "find P cols = Some old \<Longrightarrow> P new \<Longrightarrow>
   cell_of (rename_col old new cols) r new = cell_of cols r old"
proof (induction cols arbitrary: r)
  case Nil
  then show ?case by simp
next
  case (Cons l cols)
  show ?case
  proof (cases r)
    case Nil
    then show ?thesis by simp
  next
    case r: (Cons v r')
    show ?thesis
    proof (cases "P l")
      case True
      with Cons.prems have "l = old" by simp
      then show ?thesis by (simp add: r rename_col_def cell_of_Cons)
    next
      case False
      with Cons.prems have f: "find P cols = Some old" and ne: "l \<noteq> new" by auto
      from f have "P old" by (auto simp: find_Some_iff)
      with False have "l \<noteq> old" by auto
      with ne Cons.IH [OF f Cons.prems(2), of r'] show ?thesis
        using rename_col_def by (simp add: r cell_of_Cons rename_col_def)
    qed
  qed
qed

lemma set_rename_col:
  "set (rename_col old new cols) = (\<lambda>l. if l = old then new else l) ` set cols"
  by (simp add: rename_col_def)

lemma zip_like_Zip: "zip_like ''Zip''"
  by code_simp

lemma not_zip_like_State: "\<not> zip_like ''State''"
  by code_simp

lemma not_customer_like_State: "\<not> customer_like ''State''"
  by code_simp

lemma not_customer_like_Zip: "\<not> customer_like ''Zip''"
  by code_simp

lemma zip_col_find: "zip_col cols = Some zc \<Longrightarrow> find zip_like cols = Some zc"
proof -
  assume a: "zip_col cols = Some zc"
  show ?thesis
  proof (cases "find zip_like cols")
    case None
    with a have "''Zip'' \<in> set cols" by (simp add: zip_col_def split: if_splits)
    with None zip_like_Zip show ?thesis by (auto simp: find_None_iff)
  next
    case (Some c)
    with a show ?thesis by (simp add: zip_col_def)
  qed
qed

lemma find_Some_mem: "find P xs = Some x \<Longrightarrow> P x \<and> x \<in> set xs"
  by (auto simp: find_Some_iff)

lemma load_data_columns:
  "columns (load_data raw) =
     (let cols0 = map strip (columns raw);
          cols2 = (case zip_col cols0 of None \<Rightarrow> cols0 | Some zc \<Rightarrow> rename_col zc ''Zip'' cols0)
      in if ''Customer'' \<notin> set cols2
         then (case find customer_like cols2 of
                 None \<Rightarrow> cols2
               | Some c \<Rightarrow> rename_col c ''Customer'' cols2)
         else cols2)"
  by (simp add: load_data_def Let_def has_col_def split: option.splits)

lemma load_data_rows:
  "rows (load_data raw) =
     (let cols0 = map strip (columns raw)
      in map (\<lambda>r. map strip_cell
                ((case zip_col cols0 of
                    None \<Rightarrow> (\<lambda>r. r)
                  | Some zc \<Rightarrow> assign_col cols0 zc
                      (\<lambda>v. fillna [] (str_extract_d5 (astype_str v))))
                 ((if ''State'' \<in> set cols0
                   then assign_col cols0 ''State'' (\<lambda>v. Str (upper (strip (astype_str v))))
                   else (\<lambda>r. r)) r)))
           (rows raw))"
  by (simp add: load_data_def Let_def has_col_def split: option.splits)

lemma cell_of_customer_step:
  assumes "\<not> customer_like c"  and "c \<noteq> ''Customer''"
  shows "cell_of (if ''Customer'' \<notin> set cols2
         then (case find customer_like cols2 of
                 None \<Rightarrow> cols2
               | Some k \<Rightarrow> rename_col k ''Customer'' cols2)
         else cols2) r c = cell_of cols2 r c"
proof (cases "find customer_like cols2")
  case None
  then show ?thesis by simp
next
  case (Some k)
  then have "customer_like k" by (auto dest: find_Some_mem)
  with assms have "c \<noteq> k" by auto
  with Some assms(2) show ?thesis by (simp add: cell_of_rename_other)
qed

lemma load_data_zip_cell:
  assumes z: "zip_col (map strip (columns raw)) = Some zc"
    and len: "length r = length (columns raw)"
  shows "cell_of (columns (load_data raw))
           (map strip_cell
              (assign_col (map strip (columns raw)) zc
                 (\<lambda>v. fillna [] (str_extract_d5 (astype_str v)))
                 ((if ''State'' \<in> set (map strip (columns raw))
                   then assign_col (map strip (columns raw)) ''State''
                          (\<lambda>v. Str (upper (strip (astype_str v))))
                   else (\<lambda>r. r)) r)))
           ''Zip''
         = strip_cell (fillna [] (str_extract_d5 (astype_str (cell_of (map strip (columns raw)) r zc))))"
proof -
  let ?cols0 = "map strip (columns raw)"
  let ?fS = "\<lambda>v. Str (upper (strip (astype_str v)))"
  let ?fZ = "\<lambda>v. fillna [] (str_extract_d5 (astype_str v))"
  let ?S = "if ''State'' \<in> set ?cols0 then assign_col ?cols0 ''State'' ?fS else (\<lambda>r. r)"
  from z have f: "find zip_like ?cols0 = Some zc" by (rule zip_col_find)
  then have zl: "zip_like zc" and zm: "zc \<in> set ?cols0" by (auto dest: find_Some_mem)
  from zl not_zip_like_State have zs: "zc \<noteq> ''State''" by auto
  have len0: "length r = length ?cols0" using len by simp
  have lenS: "length (?S r) = length ?cols0"
    using len0 by (simp add: length_assign_col)
  have s: "cell_of ?cols0 (?S r) zc = cell_of ?cols0 r zc"
    using cell_of_assign_col [OF len0 zm, of "''State''" ?fS] zs by simp
  have a: "cell_of ?cols0 (assign_col ?cols0 zc ?fZ (?S r)) zc = ?fZ (cell_of ?cols0 r zc)"
    using cell_of_assign_col [OF lenS zm, of zc ?fZ] s by simp
  have "cell_of (columns (load_data raw)) (map strip_cell (assign_col ?cols0 zc ?fZ (?S r))) ''Zip''
      = cell_of (rename_col zc ''Zip'' ?cols0) (map strip_cell (assign_col ?cols0 zc ?fZ (?S r))) ''Zip''"
    unfolding load_data_columns Let_def z option.case
    by (rule cell_of_customer_step) (simp_all add: not_customer_like_Zip)
  also have "\<dots> = cell_of ?cols0 (map strip_cell (assign_col ?cols0 zc ?fZ (?S r))) zc"
    by (rule cell_of_rename_first [OF f zip_like_Zip])
  also have "\<dots> = strip_cell (?fZ (cell_of ?cols0 r zc))"
    by (simp only: cell_of_map_strip a)
  finally show ?thesis .
qed

lemma load_data_zip_series:
  assumes wf: "wf_frame (raw\<lparr>columns := map strip (columns raw)\<rparr>)"
    and z: "zip_col (map strip (columns raw)) = Some zc"
  shows "series (load_data raw) ''Zip'' =
     map (\<lambda>v. strip_cell (fillna [] (str_extract_d5 (astype_str v))))
       (series (raw\<lparr>columns := map strip (columns raw)\<rparr>) zc)"
proof -
  have len: "length r = length (columns raw)" if "r \<in> set (rows raw)" for r
    using wf that by (auto simp: wf_frame_def list_all_iff)
  have sel: "rows (raw\<lparr>columns := map strip (columns raw)\<rparr>) = rows raw"
    "columns (raw\<lparr>columns := map strip (columns raw)\<rparr>) = map strip (columns raw)"
    by simp_all
  show ?thesis
    unfolding series_def load_data_rows Let_def z option.case map_map comp_def sel
    by (rule map_cong [OF refl], rule load_data_zip_cell [OF z], rule len)
qed

lemma not_zip_like_Customer: "\<not> zip_like ''Customer''"
  by code_simp

lemma mem_customer_step:
  assumes "\<not> customer_like c" and "c \<noteq> ''Customer''"
  shows "c \<in> set (if ''Customer'' \<notin> set cols2
         then (case find customer_like cols2 of
                 None \<Rightarrow> cols2
               | Some k \<Rightarrow> rename_col k ''Customer'' cols2)
         else cols2) \<longleftrightarrow> c \<in> set cols2"
proof (cases "find customer_like cols2")
  case None
  then show ?thesis by simp
next
  case (Some k)
  then have "customer_like k" by (auto dest: find_Some_mem)
  with assms have "c \<noteq> k" by auto
  with Some assms(2) show ?thesis by (auto simp: set_rename_col)
qed

lemma load_data_has_zip:
  assumes z: "zip_col (map strip (columns raw)) = Some zc"
  shows "has_col (load_data raw) ''Zip''"
proof -
  from zip_col_find [OF z] have "zc \<in> set (map strip (columns raw))"
    by (rule find_Some_mem [THEN conjunct2])
  then have "''Zip'' \<in> set (rename_col zc ''Zip'' (map strip (columns raw)))"
    by (auto simp: set_rename_col)
  then show ?thesis
    unfolding has_col_def load_data_columns Let_def z option.case
    by (subst mem_customer_step) (simp_all add: not_customer_like_Zip)
qed

lemma customer_like_not_zip_like: "zip_like c \<Longrightarrow> \<not> customer_like c"
proof -
  assume "zip_like c"
  then consider (a) "lower c = ''zip''" | (b) "lower c = ''zipcode''" | (c) "lower c = ''postal''"
    | (d) "lower c = ''postal_code''"
    unfolding zip_like_def by fastforce
  then show ?thesis
  proof cases
    case a
    show ?thesis unfolding customer_like_def str_contains_def a by code_simp
  next
    case b
    show ?thesis unfolding customer_like_def str_contains_def b by code_simp
  next
    case c
    show ?thesis unfolding customer_like_def str_contains_def c by code_simp
  next
    case d
    show ?thesis unfolding customer_like_def str_contains_def d by code_simp
  qed
qed

lemma load_data_old_label_gone:
  assumes z: "zip_col (map strip (columns raw)) = Some zc" and ne: "zc \<noteq> ''Zip''"
  shows "\<not> has_col (load_data raw) zc"
proof -
  from zip_col_find [OF z] have zl: "zip_like zc"
    by (rule find_Some_mem [THEN conjunct1])
  with not_zip_like_Customer have c: "zc \<noteq> ''Customer''" by auto
  have "zc \<notin> set (rename_col zc ''Zip'' (map strip (columns raw)))"
    using ne by (auto simp: set_rename_col)
  then show ?thesis
    unfolding has_col_def load_data_columns Let_def z option.case
    by (subst mem_customer_step) (simp_all add: customer_like_not_zip_like [OF zl] c)
qed

lemma strip_cell_zip: "strip_cell (fillna [] (str_extract_d5 s)) = fillna [] (str_extract_d5 s)"
  using zip_cell_spec [of s] by (auto simp: strip_cell_def)

lemma zip_like_iff:
  "zip_like c \<longleftrightarrow> lower c \<in> {''zip'', ''zipcode'', ''postal'', ''postal_code''}"
  by (simp add: zip_like_def)

lemma zip_col_first: "zip_col cols = Some zc \<longleftrightarrow> first_zip_label cols zc"
proof
  assume "zip_col cols = Some zc"
  then have "find zip_like cols = Some zc" by (rule zip_col_find)
  then obtain i where "i < length cols" "zip_like (cols ! i)" "zc = cols ! i"
    "\<forall>j < i. \<not> zip_like (cols ! j)"
    unfolding find_Some_iff by blast
  then show "first_zip_label cols zc"
    unfolding first_zip_label_def zip_like_iff by blast
next
  assume "first_zip_label cols zc"
  then obtain i where "i < length cols" "zip_like (cols ! i)" "zc = cols ! i"
    "\<forall>j < i. \<not> zip_like (cols ! j)"
    unfolding first_zip_label_def zip_like_iff by blast
  then have "find zip_like cols = Some zc"
    unfolding find_Some_iff by blast
  then show "zip_col cols = Some zc" by (simp add: zip_col_def)
qed

lemma zip_col_none:
  "zip_col cols = None \<longleftrightarrow>
     (\<forall>c \<in> set cols. lower c \<notin> {''zip'', ''zipcode'', ''postal'', ''postal_code''})"
proof
  assume n: "zip_col cols = None"
  then have "find zip_like cols = None"
    by (simp add: zip_col_def split: option.splits)
  then show "\<forall>c \<in> set cols. lower c \<notin> {''zip'', ''zipcode'', ''postal'', ''postal_code''}"
    unfolding find_None_iff zip_like_iff by blast
next
  assume a: "\<forall>c \<in> set cols. lower c \<notin> {''zip'', ''zipcode'', ''postal'', ''postal_code''}"
  then have f: "find zip_like cols = None"
    unfolding find_None_iff zip_like_iff by blast
  from a zip_like_Zip have "''Zip'' \<notin> set cols"
    unfolding zip_like_iff by blast
  with f show "zip_col cols = None" by (simp add: zip_col_def)
qed

lemma load_data_zip_found:
  assumes "wf_frame (raw\<lparr>columns := map strip (columns raw)\<rparr>)"
    and "zip_col (map strip (columns raw)) = Some zc"
  shows "has_col (load_data raw) ''Zip''
       \<and> (zc = ''Zip'' \<or> \<not> has_col (load_data raw) zc)
       \<and> series (load_data raw) ''Zip'' =
           map (\<lambda>v. fillna [] (str_extract_d5 (astype_str v)))
             (series (raw\<lparr>columns := map strip (columns raw)\<rparr>) zc)"
proof -
  have b: "has_col (load_data raw) ''Zip''"
    by (rule load_data_has_zip [OF assms(2)])
  have c: "zc = ''Zip'' \<or> \<not> has_col (load_data raw) zc"
    using load_data_old_label_gone [OF assms(2)] by blast
  have d: "series (load_data raw) ''Zip'' =
           map (\<lambda>v. fillna [] (str_extract_d5 (astype_str v)))
             (series (raw\<lparr>columns := map strip (columns raw)\<rparr>) zc)"
    by (simp add: load_data_zip_series [OF assms] strip_cell_zip)
  from b c d show ?thesis by (intro conjI)
qed

text \<open>
  C4: when some stripped label has a lower-case form among \<^verbatim>\<open>zip\<close>, \<^verbatim>\<open>zipcode\<close>, \<^verbatim>\<open>postal\<close> and
  \<^verbatim>\<open>postal_code\<close> (the literal \<^verbatim>\<open>Zip\<close> is one), the loader takes the first such label as the
  ZIP column; the loaded frame has a \<open>Zip\<close> column and no longer the old label, and each
  of its cells is a string, never the missing marker: the leftmost five digits in a row
  of the raw cell's string form, or the empty string when the string form has no such
  run. The raw value \<^verbatim>\<open>54401-1\<close> becomes \<^verbatim>\<open>54401\<close>.
\<close>

theorem load_data_takes_first_zip_label:
  assumes "wf_frame (raw\<lparr>columns := map strip (columns raw)\<rparr>)"
    and "first_zip_label (map strip (columns raw)) zc"
  shows "zip_col (map strip (columns raw)) = Some zc
       \<and> has_col (load_data raw) ''Zip''
       \<and> (zc = ''Zip'' \<or> \<not> has_col (load_data raw) zc)
       \<and> series (load_data raw) ''Zip'' =
           map (\<lambda>v. fillna [] (str_extract_d5 (astype_str v)))
             (series (raw\<lparr>columns := map strip (columns raw)\<rparr>) zc)
       \<and> (\<exists>z. fillna [] (str_extract_d5 (astype_str v)) = Str z
              \<and> (first_run5 (astype_str v) z \<or> (no_run5 (astype_str v) \<and> z = [])))
       \<and> fillna [] (str_extract_d5 (astype_str (Str ''54401-1''))) = Str ''54401''"
proof -
  have a: "zip_col (map strip (columns raw)) = Some zc"
    using assms(2) by (simp add: zip_col_first)
  note bcd = load_data_zip_found [OF assms(1) a]
  have e: "\<exists>z. fillna [] (str_extract_d5 (astype_str v)) = Str z
              \<and> (first_run5 (astype_str v) z \<or> (no_run5 (astype_str v) \<and> z = []))"
    using zip_cell_spec [of "astype_str v"] by blast
  have f: "fillna [] (str_extract_d5 (astype_str (Str ''54401-1''))) = Str ''54401''"
    by code_simp
  from a bcd e f show ?thesis by blast
qed

theorem load_data_takes_first_zip_label_witness:
  "wf_frame (raw_accounts\<lparr>columns := map strip (columns raw_accounts)\<rparr>)
   \<and> first_zip_label (map strip (columns raw_accounts)) ''Postal_Code''
   \<and> zip_col (map strip (columns raw_accounts)) = Some ''Postal_Code''
   \<and> has_col (load_data raw_accounts) ''Zip''
   \<and> series (load_data raw_accounts) ''Zip'' =
       map (\<lambda>v. fillna [] (str_extract_d5 (astype_str v)))
         (series (raw_accounts\<lparr>columns := map strip (columns raw_accounts)\<rparr>) ''Postal_Code'')
   \<and> series (load_data raw_accounts) ''Zip'' = [Str ''54401'', Str ''54402'', Str ''55401'', Str []]
   \<and> load_data raw_accounts = accounts"
proof -
  have w: "wf_frame (raw_accounts\<lparr>columns := map strip (columns raw_accounts)\<rparr>)"
    by code_simp
  have c: "map strip (columns raw_accounts) = [''Customer'', ''WSC_SAM'', ''State'', ''Postal_Code'']"
    by code_simp
  have l3: "lower ''Postal_Code'' = ''postal_code''"
    and l0: "lower ''Customer'' = ''customer''"
    and l1: "lower ''WSC_SAM'' = ''wsc_sam''"
    and l2: "lower ''State'' = ''state''"
    by code_simp+
  have fz: "first_zip_label (map strip (columns raw_accounts)) ''Postal_Code''"
    unfolding first_zip_label_def c
    by (rule exI [of _ 3]) (simp add: l3 l0 l1 l2 less_Suc_eq numeral_3_eq_3)
  have l: "load_data raw_accounts = accounts"
    by code_simp
  have s: "series (load_data raw_accounts) ''Zip'' =
      [Str ''54401'', Str ''54402'', Str ''55401'', Str []]"
    unfolding l by code_simp
  note t = load_data_takes_first_zip_label [OF w fz, of NaN]
  from t have z: "zip_col (map strip (columns raw_accounts)) = Some ''Postal_Code''"
    by (rule conjunct1)
  from t have b: "has_col (load_data raw_accounts) ''Zip''"
    by (rule conjunct2 [THEN conjunct1])
  from t have d: "series (load_data raw_accounts) ''Zip'' =
       map (\<lambda>v. fillna [] (str_extract_d5 (astype_str v)))
         (series (raw_accounts\<lparr>columns := map strip (columns raw_accounts)\<rparr>) ''Postal_Code'')"
    by (rule conjunct2 [THEN conjunct2, THEN conjunct2, THEN conjunct1])
  from w fz z b d s l show ?thesis
    by (intro conjI)
qed

lemma load_data_state_cell:
  assumes st: "''State'' \<in> set (map strip (columns raw))"
    and len: "length r = length (columns raw)"
  shows "cell_of (columns (load_data raw))
           (map strip_cell
              ((case zip_col (map strip (columns raw)) of
                  None \<Rightarrow> (\<lambda>r. r)
                | Some zc \<Rightarrow> assign_col (map strip (columns raw)) zc
                    (\<lambda>v. fillna [] (str_extract_d5 (astype_str v))))
               (assign_col (map strip (columns raw)) ''State''
                  (\<lambda>v. Str (upper (strip (astype_str v)))) r)))
           ''State''
         = Str (strip (upper (strip (astype_str (cell_of (map strip (columns raw)) r ''State'')))))"
proof -
  let ?cols0 = "map strip (columns raw)"
  let ?fS = "\<lambda>v. Str (upper (strip (astype_str v)))"
  let ?fZ = "\<lambda>v. fillna [] (str_extract_d5 (astype_str v))"
  let ?Z = "case zip_col ?cols0 of None \<Rightarrow> (\<lambda>r. r) | Some zc \<Rightarrow> assign_col ?cols0 zc ?fZ"
  let ?cols2 = "case zip_col ?cols0 of None \<Rightarrow> ?cols0 | Some zc \<Rightarrow> rename_col zc ''Zip'' ?cols0"
  have len0: "length r = length ?cols0" using len by simp
  have lenS: "length (assign_col ?cols0 ''State'' ?fS r) = length ?cols0"
    using len0 by (rule length_assign_col)
  have s: "cell_of ?cols0 (assign_col ?cols0 ''State'' ?fS r) ''State''
      = ?fS (cell_of ?cols0 r ''State'')"
    using cell_of_assign_col [OF len0 st, of "''State''" ?fS] by simp
  have z: "cell_of ?cols0 (?Z (assign_col ?cols0 ''State'' ?fS r)) ''State''
      = ?fS (cell_of ?cols0 r ''State'')"
  proof (cases "zip_col ?cols0")
    case None
    then show ?thesis using s by simp
  next
    case (Some zc)
    from zip_col_find [OF Some] have "zip_like zc"
      by (rule find_Some_mem [THEN conjunct1])
    with not_zip_like_State have "''State'' \<noteq> zc" by auto
    then show ?thesis
      using cell_of_assign_col [OF lenS st, of zc ?fZ] s Some by simp
  qed
  have c2: "cell_of ?cols2 x ''State'' = cell_of ?cols0 x ''State''" for x
  proof (cases "zip_col ?cols0")
    case None
    then show ?thesis by simp
  next
    case (Some zc)
    from zip_col_find [OF Some] have "zip_like zc"
      by (rule find_Some_mem [THEN conjunct1])
    with not_zip_like_State have "''State'' \<noteq> zc" by auto
    then show ?thesis
      using Some by (simp add: cell_of_rename_other)
  qed
  have "cell_of (columns (load_data raw))
      (map strip_cell (?Z (assign_col ?cols0 ''State'' ?fS r))) ''State''
      = cell_of ?cols2 (map strip_cell (?Z (assign_col ?cols0 ''State'' ?fS r))) ''State''"
    unfolding load_data_columns Let_def
    by (rule cell_of_customer_step) (simp_all add: not_customer_like_State)
  also have "\<dots> = strip_cell (?fS (cell_of ?cols0 r ''State''))"
    by (simp only: c2 cell_of_map_strip z)
  finally show ?thesis by (simp add: strip_cell_def)
qed

lemma load_data_state_series:
  assumes wf: "wf_frame (raw\<lparr>columns := map strip (columns raw)\<rparr>)"
    and st: "has_col (raw\<lparr>columns := map strip (columns raw)\<rparr>) ''State''"
  shows "series (load_data raw) ''State'' =
     map (\<lambda>v. Str (strip (upper (strip (astype_str v)))))
       (series (raw\<lparr>columns := map strip (columns raw)\<rparr>) ''State'')"
proof -
  have len: "length r = length (columns raw)" if "r \<in> set (rows raw)" for r
    using wf that by (auto simp: wf_frame_def list_all_iff)
  from st have st': "''State'' \<in> set (map strip (columns raw))"
    by (simp add: has_col_def)
  have sel: "rows (raw\<lparr>columns := map strip (columns raw)\<rparr>) = rows raw"
    "columns (raw\<lparr>columns := map strip (columns raw)\<rparr>) = map strip (columns raw)"
    by simp_all
  show ?thesis
    unfolding series_def load_data_rows Let_def map_map comp_def sel if_P [OF st']
    by (rule map_cong [OF refl], rule load_data_state_cell [OF st'], rule len)
qed

lemma load_data_has_state:
  assumes st: "has_col (raw\<lparr>columns := map strip (columns raw)\<rparr>) ''State''"
  shows "has_col (load_data raw) ''State''"
proof -
  let ?cols0 = "map strip (columns raw)"
  from st have st': "''State'' \<in> set ?cols0"
    by (simp add: has_col_def)
  have "''State'' \<in> set (case zip_col ?cols0 of None \<Rightarrow> ?cols0
      | Some zc \<Rightarrow> rename_col zc ''Zip'' ?cols0)"
  proof (cases "zip_col ?cols0")
    case None
    then show ?thesis using st' by simp
  next
    case (Some zc)
    from zip_col_find [OF Some] have "zip_like zc"
      by (rule find_Some_mem [THEN conjunct1])
    with not_zip_like_State have "''State'' \<noteq> zc" by auto
    then show ?thesis
      using Some st' by (auto simp: set_rename_col)
  qed
  then show ?thesis
    unfolding has_col_def load_data_columns Let_def
    by (subst mem_customer_step) (simp_all add: not_customer_like_State)
qed

text \<open>
  C10: when the stripped labels hold \<open>State\<close>, every cell of the loaded \<open>State\<close> column is a
  string, made from the string form of the raw cell by trimming and upper-casing (and the
  trimming of line 67); none is the missing marker. The string form of a missing cell is
  \<^verbatim>\<open>nan\<close>, so a missing state becomes \<^verbatim>\<open>NAN\<close>, and in the example the state options of the
  loaded frame offer \<^verbatim>\<open>NAN\<close>.
\<close>

theorem load_data_missing_state_becomes_NAN:
  assumes "wf_frame (raw\<lparr>columns := map strip (columns raw)\<rparr>)"
    and "has_col (raw\<lparr>columns := map strip (columns raw)\<rparr>) ''State''"
  shows "has_col (load_data raw) ''State''
       \<and> series (load_data raw) ''State'' =
           map (\<lambda>v. Str (strip (upper (strip (astype_str v)))))
             (series (raw\<lparr>columns := map strip (columns raw)\<rparr>) ''State'')
       \<and> NaN \<notin> set (series (load_data raw) ''State'')
       \<and> Str (strip (upper (strip (astype_str NaN)))) = Str ''NAN''
       \<and> state_vals (load_data raw_accounts) [] [] = Inr [''MN'', ''NAN'', ''WI'']"
proof -
  have a: "has_col (load_data raw) ''State''"
    by (rule load_data_has_state [OF assms(2)])
  have b: "series (load_data raw) ''State'' =
           map (\<lambda>v. Str (strip (upper (strip (astype_str v)))))
             (series (raw\<lparr>columns := map strip (columns raw)\<rparr>) ''State'')"
    by (rule load_data_state_series [OF assms])
  have c: "NaN \<notin> set (series (load_data raw) ''State'')"
    unfolding b by auto
  have d: "Str (strip (upper (strip (astype_str NaN)))) = Str ''NAN''"
    by code_simp
  have e: "state_vals (load_data raw_accounts) [] [] = Inr [''MN'', ''NAN'', ''WI'']"
    by code_simp
  from a b c d e show ?thesis by (intro conjI)
qed

theorem load_data_missing_state_becomes_NAN_witness:
  "wf_frame (raw_accounts\<lparr>columns := map strip (columns raw_accounts)\<rparr>)
   \<and> has_col (raw_accounts\<lparr>columns := map strip (columns raw_accounts)\<rparr>) ''State''
   \<and> series (raw_accounts\<lparr>columns := map strip (columns raw_accounts)\<rparr>) ''State'' =
       [Str ''wi '', Str ''WI'', Str ''MN'', NaN]
   \<and> series (load_data raw_accounts) ''State'' = [Str ''WI'', Str ''WI'', Str ''MN'', Str ''NAN'']
   \<and> NaN \<notin> set (series (load_data raw_accounts) ''State'')
   \<and> state_vals (load_data raw_accounts) [] [] = Inr [''MN'', ''NAN'', ''WI'']"
proof -
  have w: "wf_frame (raw_accounts\<lparr>columns := map strip (columns raw_accounts)\<rparr>)"
    by code_simp
  have h: "has_col (raw_accounts\<lparr>columns := map strip (columns raw_accounts)\<rparr>) ''State''"
    by code_simp
  have r: "series (raw_accounts\<lparr>columns := map strip (columns raw_accounts)\<rparr>) ''State'' =
       [Str ''wi '', Str ''WI'', Str ''MN'', NaN]"
    by code_simp
  have s: "series (load_data raw_accounts) ''State'' =
      [Str ''WI'', Str ''WI'', Str ''MN'', Str ''NAN'']"
    by code_simp
  note t = load_data_missing_state_becomes_NAN [OF w h]
  from t have c: "NaN \<notin> set (series (load_data raw_accounts) ''State'')"
    by (rule conjunct2 [THEN conjunct2, THEN conjunct1])
  from t have e: "state_vals (load_data raw_accounts) [] [] = Inr [''MN'', ''NAN'', ''WI'']"
    by (rule conjunct2 [THEN conjunct2, THEN conjunct2, THEN conjunct2])
  from w h r s c e show ?thesis by (intro conjI)
qed

section \<open>Claims about the reset\<close>

text \<open>
  C8, as the specification states it, has the reset leave the geocode cache alone. Line 83
  calls \<^verbatim>\<open>st.cache_data.clear()\<close>, which empties the cache of \<open>geocode_zips\<close> with that of
  \<open>load_data\<close>: the geocoded ZIP set of the example session is gone after the reset.
\<close>

theorem reset_clears_geocode_cache_counterexample:
  "geocode_zips_cache visited [Str ''54401'', Str ''54402''] \<noteq> None
   \<and> geocode_zips_cache (reset_filters ''u2'' visited) [Str ''54401'', Str ''54402''] = None"
  by (simp add: visited_def reset_filters_def cache_data_clear_def)

lemma session_state_reset:
  "session_state (reset_filters u st) = [''widget_suffix'' \<mapsto> Text u]"
  by (simp add: reset_filters_def cache_data_clear_def)

lemma suffix_reset: "suffix (reset_filters u st) = u"
  by (simp add: suffix_def session_state_reset)

text \<open>
  C8, amended: the reset clears the four selections and the search text to empty, reverts
  every stakeholder checkbox to unchecked, gives the widgets the new suffix, and empties
  every \<^verbatim>\<open>st.cache_data\<close> cache: the Dataset cache and the geocode cache alike.
\<close>

theorem reset_clears_selections_and_every_cache:
  "customer_choice (reset_filters u st) = []
   \<and> sam_choice (reset_filters u st) = []
   \<and> state_choice (reset_filters u st) = []
   \<and> zip_choice (reset_filters u st) = []
   \<and> search_text (reset_filters u st) = []
   \<and> slicer (reset_filters u st) col_name = False
   \<and> suffix (reset_filters u st) = u
   \<and> load_data_cache (reset_filters u st) = None
   \<and> geocode_zips_cache (reset_filters u st) = Map.empty"
proof -
  have c: "customer_choice (reset_filters u st) = []"
    by (simp add: customer_choice_def multiselect_def session_state_reset)
  have s: "sam_choice (reset_filters u st) = []"
    by (simp add: sam_choice_def multiselect_def session_state_reset)
  have t: "state_choice (reset_filters u st) = []"
    by (simp add: state_choice_def multiselect_def session_state_reset)
  have z: "zip_choice (reset_filters u st) = []"
    by (simp add: zip_choice_def multiselect_def session_state_reset)
  have x: "search_text (reset_filters u st) = []"
    by (simp add: search_text_def text_input_def session_state_reset)
  have k: "slicer (reset_filters u st) col_name = False"
    by (simp add: slicer_def checkbox_def session_state_reset)
  have l: "load_data_cache (reset_filters u st) = None"
    by (simp add: reset_filters_def cache_data_clear_def)
  have g: "geocode_zips_cache (reset_filters u st) = Map.empty"
    by (simp add: reset_filters_def cache_data_clear_def)
  from c s t z x k suffix_reset l g show ?thesis by (intro conjI)
qed

theorem reset_clears_selections_and_every_cache_witness:
  "customer_choice visited = [''Acme''] \<and> search_text visited = ''ann''
   \<and> slicer visited ''Email'' = True
   \<and> customer_choice (reset_filters ''u2'' visited) = []
   \<and> search_text (reset_filters ''u2'' visited) = []
   \<and> slicer (reset_filters ''u2'' visited) ''Email'' = False
   \<and> load_data_cache (reset_filters ''u2'' visited) = None
   \<and> geocode_zips_cache (reset_filters ''u2'' visited) = Map.empty"
proof -
  have a: "customer_choice visited = [''Acme'']"
    by (simp add: customer_choice_def multiselect_def suffix_def visited_def)
  have b: "search_text visited = ''ann''"
    by (simp add: search_text_def text_input_def suffix_def visited_def)
  have c: "slicer visited ''Email'' = True"
    by (simp add: slicer_def checkbox_def suffix_def visited_def)
  show ?thesis
    using reset_clears_selections_and_every_cache [of "''u2''" visited "''Email''"] a b c
    by simp
qed

section \<open>Claims about the map and the table\<close>

lemma attach_coords_eq:
  assumes "has_col f ''Zip''"
  shows "attach_coords zip_map f =
     Inr \<lparr>frame = f,
          lat = map (\<lambda>r. fst (coords zip_map (astype_str (cell_of (columns f) r ''Zip'')))) (rows f),
          lon = map (\<lambda>r. snd (coords zip_map (astype_str (cell_of (columns f) r ''Zip'')))) (rows f)\<rparr>"
proof (cases "rows f = []")
  case True
  then show ?thesis by (simp add: attach_coords_def empty_def)
next
  case False
  from assms have "columns f \<noteq> []" by (auto simp: has_col_def)
  with False assms show ?thesis
    by (simp add: attach_coords_def empty_def getitem_def series_def Let_def comp_def)
qed

lemma unresolved_coords: "unresolved zip_map z \<Longrightarrow> coords zip_map z = (None, None)"
  by (auto simp: unresolved_def coords_def split: option.splits)

lemma coords_resolved: "fst (coords zip_map z) = Some a \<Longrightarrow> \<not> unresolved zip_map z"
  by (auto simp: unresolved_def coords_def split: option.splits)

lemma zip_rows_coords:
  "zip xs (zip (map g xs) (map h xs)) = map (\<lambda>x. (x, g x, h x)) xs"
  by (induction xs) simp_all

lemma dropna_lat_lon_resolved:
  assumes "p \<in> set (dropna_lat_lon
      \<lparr>frame = f,
       lat = map (\<lambda>r. fst (coords zip_map (astype_str (cell_of (columns f) r ''Zip'')))) (rows f),
       lon = map (\<lambda>r. snd (coords zip_map (astype_str (cell_of (columns f) r ''Zip'')))) (rows f)\<rparr>)"
  shows "fst p \<in> set (rows f)
       \<and> \<not> unresolved zip_map (astype_str (cell_of (columns f) (fst p) ''Zip''))"
proof -
  from assms obtain r a b where r: "r \<in> set (rows f)"
    and a: "fst (coords zip_map (astype_str (cell_of (columns f) r ''Zip''))) = Some a"
    and p: "p = (r, a, b)"
    unfolding dropna_lat_lon_def
    by (auto simp: zip_rows_coords List.map_filter_def split: option.splits)
       (metis fst_conv)
  from a have "\<not> unresolved zip_map (astype_str (cell_of (columns f) r ''Zip''))"
    by (rule coords_resolved)
  with r p show ?thesis by simp
qed

lemma dropna_lat_lon_none:
  assumes "\<And>r. r \<in> set (rows f) \<Longrightarrow> unresolved zip_map (astype_str (cell_of (columns f) r ''Zip''))"
  shows "dropna_lat_lon
      \<lparr>frame = f,
       lat = map (\<lambda>r. fst (coords zip_map (astype_str (cell_of (columns f) r ''Zip'')))) (rows f),
       lon = map (\<lambda>r. snd (coords zip_map (astype_str (cell_of (columns f) r ''Zip'')))) (rows f)\<rparr>
     = []"
proof (rule ccontr)
  assume "\<not> ?thesis"
  then obtain p where "p \<in> set (dropna_lat_lon
      \<lparr>frame = f,
       lat = map (\<lambda>r. fst (coords zip_map (astype_str (cell_of (columns f) r ''Zip'')))) (rows f),
       lon = map (\<lambda>r. snd (coords zip_map (astype_str (cell_of (columns f) r ''Zip'')))) (rows f)\<rparr>)"
    using hd_in_set by blast
  from dropna_lat_lon_resolved [OF this] assms show False by blast
qed

lemma row_of_cells:
  assumes "distinct cols" and "length r = length cols"
  shows "map (cell_of cols r) cols = r"
proof (rule nth_equalityI)
  show "length (map (cell_of cols r) cols) = length r" using assms by simp
next
  fix i assume "i < length (map (cell_of cols r) cols)"
  then have "i < length cols" by simp
  then show "map (cell_of cols r) cols ! i = r ! i"
    using cell_of_nth [OF assms] by simp
qed

lemma filtered_to_display_rows:
  assumes "wf_frame f"
  shows "rows (filtered_to_display df f selected) =
     map (\<lambda>r. map (cell_of (columns f) r) (columns (filtered_to_display df f selected))) (rows f)"
proof (cases "list_all (has_col f) (cols_to_show df selected)")
  case True
  then show ?thesis by (simp add: filtered_to_display_def Let_def)
next
  case False
  have "map (\<lambda>r. map (cell_of (columns f) r) (columns f)) (rows f) = map (\<lambda>r. r) (rows f)"
  proof (rule map_cong [OF refl])
    fix r assume "r \<in> set (rows f)"
    with assms have "distinct (columns f)" "length r = length (columns f)"
      by (auto simp: wf_frame_def list_all_iff)
    then show "map (cell_of (columns f) r) (columns f) = r" by (rule row_of_cells)
  qed
  with False show ?thesis by (simp add: filtered_to_display_def Let_def)
qed

lemma csv_field_fun: "(\<lambda>v. case v of NaN \<Rightarrow> [] | Str s \<Rightarrow> s) = csv_field"
  by (rule ext) (simp add: csv_field_def)

lemma to_csv_display:
  assumes "wf_frame f"
  shows "to_csv (filtered_to_display df f selected) =
     columns (filtered_to_display df f selected)
     # map (\<lambda>r. map (\<lambda>c. csv_field (cell_of (columns f) r c))
                  (columns (filtered_to_display df f selected)))
         (rows f)"
proof -
  have "map (map csv_field) (rows (filtered_to_display df f selected)) =
      map (\<lambda>r. map (\<lambda>c. csv_field (cell_of (columns f) r c))
                 (columns (filtered_to_display df f selected)))
        (rows f)"
    by (subst filtered_to_display_rows [OF assms]) (simp add: comp_def)
  then show ?thesis
    by (simp add: to_csv_def csv_field_fun)
qed

lemma zip_two_maps: "zip (map g xs) (map h xs) = map (\<lambda>x. (g x, h x)) xs"
  by (induction xs) simp_all

lemma geocode_zips_unresolved:
  assumes "geocode_zips nomi zips = Inr m"
  shows "unresolved m z \<longleftrightarrow> \<not> answered (nomi (unique zips)) z"
proof -
  let ?out = "nomi (unique zips)"
  let ?kv = "map (\<lambda>p. (astype_str (fst p), snd p)) ?out"
  have idx: "map (\<lambda>(code, rec). astype_str code) ?out = map (\<lambda>p. astype_str (fst p)) ?out"
    by (simp add: case_prod_beta)
  have kvfst: "map fst ?kv = map (\<lambda>p. astype_str (fst p)) ?out"
    by (simp add: comp_def)
  have zipped: "zip (map (\<lambda>p. astype_str (fst p)) ?out) (map snd ?out) = ?kv"
    by (rule zip_two_maps)
  from assms have "distinct (map (\<lambda>p. astype_str (fst p)) ?out)"
    and "m = map_of (zip (map (\<lambda>p. astype_str (fst p)) ?out) (map snd ?out))"
    unfolding geocode_zips_def Let_def idx by (auto split: if_splits)
  then have d: "distinct (map fst ?kv)" and m: "m = map_of ?kv"
    unfolding kvfst zipped by simp_all
  have some: "m z = Some rec \<longleftrightarrow> (\<exists>p \<in> set ?out. astype_str (fst p) = z \<and> snd p = rec)" for rec
    unfolding m map_of_eq_Some_iff [OF d] by auto
  have none: "m z = None \<longleftrightarrow> (\<forall>p \<in> set ?out. astype_str (fst p) \<noteq> z)"
    unfolding m map_of_eq_None_iff by force
  show ?thesis
  proof (cases "m z")
    case None
    with none show ?thesis by (auto simp: unresolved_def answered_def)
  next
    case (Some rec)
    have "answered ?out z \<longleftrightarrow> fst rec \<noteq> None"
    proof
      assume "answered ?out z"
      then obtain p where p: "p \<in> set ?out" "astype_str (fst p) = z" "fst (snd p) \<noteq> None"
        unfolding answered_def by blast
      then have "m z = Some (snd p)" using some by blast
      with Some p(3) show "fst rec \<noteq> None" by simp
    next
      assume r: "fst rec \<noteq> None"
      from Some some obtain p where "p \<in> set ?out" "astype_str (fst p) = z" "snd p = rec"
        by blast
      with r show "answered ?out z" unfolding answered_def by blast
    qed
    with Some show ?thesis by (simp add: unresolved_def)
  qed
qed

lemma zip_map_of_unresolved:
  assumes "has_col f ''Zip''" and "rows f \<noteq> []" and "zip_map_of nomi f = Inr m"
  shows "unresolved m z \<longleftrightarrow> \<not> answered (nomi (unique (series f ''Zip''))) z"
proof -
  from assms(1) have "columns f \<noteq> []" by (auto simp: has_col_def)
  with assms have "geocode_zips nomi (series f ''Zip'') = Inr m"
    by (simp add: zip_map_of_def empty_def getitem_def)
  then show ?thesis by (rule geocode_zips_unresolved)
qed

text \<open>
  C7: for a filtered frame with a \<open>Zip\<close> column and any answer of the geocoder, a row whose
  ZIP the answer does not resolve (no record, or no latitude; the empty string is a ZIP like
  any other) gets the missing marker as latitude and longitude; every row the map draws
  has a resolved ZIP, so such a row is not drawn; the table holds every filtered row, in
  order, under the displayed columns, and the export is the header followed by one record
  per filtered row, in order, holding that row's cells under the displayed columns; and
  when no row is resolved the map section is the notice
  \<^verbatim>\<open>No mappable locations for current filters.\<close> Where the answer comes from \<open>zip_map_of\<close>
  (lines 166 to 173), a ZIP is unresolved exactly when the geocoder's rows hold no record
  with a latitude for it.
\<close>

theorem unresolved_zip_rows_leave_map_stay_in_table:
  assumes "wf_frame f" and "has_col f ''Zip''"
  shows "\<exists>geo. attach_coords zip_map f = Inr geo
       \<and> frame geo = f
       \<and> length (lat geo) = length (rows f) \<and> length (lon geo) = length (rows f)
       \<and> (\<forall>i < length (rows f).
             unresolved zip_map (astype_str (cell_of (columns f) (rows f ! i) ''Zip''))
             \<longrightarrow> lat geo ! i = None \<and> lon geo ! i = None)
       \<and> (\<forall>p \<in> set (dropna_lat_lon geo).
             fst p \<in> set (rows f)
             \<and> \<not> unresolved zip_map (astype_str (cell_of (columns f) (fst p) ''Zip'')))
       \<and> ((\<forall>r \<in> set (rows f). unresolved zip_map (astype_str (cell_of (columns f) r ''Zip'')))
             \<longrightarrow> map_section map_view geo = Info ''No mappable locations for current filters.'')
       \<and> rows (filtered_to_display df f selected) =
           map (\<lambda>r. map (cell_of (columns f) r) (columns (filtered_to_display df f selected)))
             (rows f)
       \<and> to_csv (filtered_to_display df f selected) =
           columns (filtered_to_display df f selected)
           # map (\<lambda>r. map (\<lambda>c. csv_field (cell_of (columns f) r c))
                        (columns (filtered_to_display df f selected)))
               (rows f)
       \<and> (rows f \<noteq> [] \<and> zip_map_of nomi f = Inr zip_map
             \<longrightarrow> unresolved zip_map z = (\<not> answered (nomi (unique (series f ''Zip''))) z))"
proof -
  let ?z = "\<lambda>r. astype_str (cell_of (columns f) r ''Zip'')"
  let ?geo = "\<lparr>frame = f, lat = map (\<lambda>r. fst (coords zip_map (?z r))) (rows f),
      lon = map (\<lambda>r. snd (coords zip_map (?z r))) (rows f)\<rparr>"
  have a: "attach_coords zip_map f = Inr ?geo"
    by (rule attach_coords_eq [OF assms(2)])
  have b: "frame ?geo = f \<and> length (lat ?geo) = length (rows f)
      \<and> length (lon ?geo) = length (rows f)"
    by simp
  have c: "\<forall>i < length (rows f). unresolved zip_map (?z (rows f ! i))
      \<longrightarrow> lat ?geo ! i = None \<and> lon ?geo ! i = None"
    by (simp add: unresolved_coords)
  have d: "\<forall>p \<in> set (dropna_lat_lon ?geo).
      fst p \<in> set (rows f) \<and> \<not> unresolved zip_map (?z (fst p))"
    using dropna_lat_lon_resolved by blast
  have e: "(\<forall>r \<in> set (rows f). unresolved zip_map (?z r))
      \<longrightarrow> map_section map_view ?geo = Info ''No mappable locations for current filters.''"
  proof
    assume "\<forall>r \<in> set (rows f). unresolved zip_map (?z r)"
    then have "dropna_lat_lon ?geo = []"
      by (intro dropna_lat_lon_none) blast
    then show "map_section map_view ?geo = Info ''No mappable locations for current filters.''"
      by (simp add: map_section_def)
  qed
  have t: "rows (filtered_to_display df f selected) =
      map (\<lambda>r. map (cell_of (columns f) r) (columns (filtered_to_display df f selected))) (rows f)"
    by (rule filtered_to_display_rows [OF assms(1)])
  have v: "to_csv (filtered_to_display df f selected) =
           columns (filtered_to_display df f selected)
           # map (\<lambda>r. map (\<lambda>c. csv_field (cell_of (columns f) r c))
                        (columns (filtered_to_display df f selected)))
               (rows f)"
    by (rule to_csv_display [OF assms(1)])
  have g: "rows f \<noteq> [] \<and> zip_map_of nomi f = Inr zip_map
      \<longrightarrow> unresolved zip_map z = (\<not> answered (nomi (unique (series f ''Zip''))) z)"
    using zip_map_of_unresolved [OF assms(2)] by blast
  from a b c d e t v g show ?thesis by blast
qed

theorem unresolved_zip_rows_leave_map_stay_in_table_witness:
  "wf_frame accounts \<and> has_col accounts ''Zip''
   \<and> unresolved known_zips ''54401'' \<and> unresolved known_zips []
   \<and> attach_coords known_zips accounts =
       Inr \<lparr>frame = accounts, lat = [None, Some 45, Some 45, None],
            lon = [None, Some (- 90), Some (- 93), None]\<rparr>
   \<and> map_section ''Pin Map''
        \<lparr>frame = accounts, lat = [None, Some 45, Some 45, None],
         lon = [None, Some (- 90), Some (- 93), None]\<rparr> =
       Plotly_chart (Scatter_mapbox
         [([Str ''Acme'', Str ''Ann'', Str ''WI'', Str ''54402''], 45, - 90),
          ([Str ''Beta'', Str ''Bob'', Str ''MN'', Str ''55401''], 45, - 93)])
   \<and> rows (filtered_to_display accounts accounts []) = rows accounts
   \<and> to_csv (filtered_to_display accounts accounts []) =
       [[''Customer'', ''WSC_SAM'', ''State'', ''Zip''],
        [''Acme'', ''Ann'', ''WI'', ''54401''],
        [''Acme'', ''Ann'', ''WI'', ''54402''],
        [''Beta'', ''Bob'', ''MN'', ''55401''],
        [''Gamma'', [], ''NAN'', []]]
   \<and> (\<exists>geo. attach_coords known_zips accounts = Inr geo
         \<and> length (lat geo) = length (rows accounts)
         \<and> rows (filtered_to_display accounts accounts []) =
             map (\<lambda>r. map (cell_of (columns accounts) r)
                        (columns (filtered_to_display accounts accounts [])))
               (rows accounts)
         \<and> to_csv (filtered_to_display accounts accounts []) =
             columns (filtered_to_display accounts accounts [])
             # map (\<lambda>r. map (\<lambda>c. csv_field (cell_of (columns accounts) r c))
                          (columns (filtered_to_display accounts accounts [])))
                 (rows accounts))"
proof -
  have u: "unresolved known_zips ''54401''" "unresolved known_zips []"
    by (simp_all add: unresolved_def known_zips_def)
  have a: "attach_coords known_zips accounts =
       Inr \<lparr>frame = accounts, lat = [None, Some 45, Some 45, None],
            lon = [None, Some (- 90), Some (- 93), None]\<rparr>"
    by (simp add: attach_coords_def empty_def getitem_def has_col_def series_def cell_of_def
        coords_def known_zips_def astype_str_def accounts_def)
  have m: "map_section ''Pin Map''
        \<lparr>frame = accounts, lat = [None, Some 45, Some 45, None],
         lon = [None, Some (- 90), Some (- 93), None]\<rparr> =
       Plotly_chart (Scatter_mapbox
         [([Str ''Acme'', Str ''Ann'', Str ''WI'', Str ''54402''], 45, - 90),
          ([Str ''Beta'', Str ''Bob'', Str ''MN'', Str ''55401''], 45, - 93)])"
    by (simp add: map_section_def dropna_lat_lon_def List.map_filter_def accounts_def)
  have d: "rows (filtered_to_display accounts accounts []) = rows accounts"
    by code_simp
  have x: "to_csv (filtered_to_display accounts accounts []) =
       [[''Customer'', ''WSC_SAM'', ''State'', ''Zip''],
        [''Acme'', ''Ann'', ''WI'', ''54401''],
        [''Acme'', ''Ann'', ''WI'', ''54402''],
        [''Beta'', ''Bob'', ''MN'', ''55401''],
        [''Gamma'', [], ''NAN'', []]]"
    by code_simp
  have e: "\<exists>geo. attach_coords known_zips accounts = Inr geo
         \<and> length (lat geo) = length (rows accounts)
         \<and> rows (filtered_to_display accounts accounts []) =
             map (\<lambda>r. map (cell_of (columns accounts) r)
                        (columns (filtered_to_display accounts accounts [])))
               (rows accounts)
         \<and> to_csv (filtered_to_display accounts accounts []) =
             columns (filtered_to_display accounts accounts [])
             # map (\<lambda>r. map (\<lambda>c. csv_field (cell_of (columns accounts) r c))
                          (columns (filtered_to_display accounts accounts [])))
                 (rows accounts)"
    using unresolved_zip_rows_leave_map_stay_in_table
      [OF accounts_wf accounts_cols(4), where zip_map = known_zips and df = accounts
        and selected = "[]"]
    by blast
  from accounts_wf accounts_cols(4) u a m d x e show ?thesis by (intro conjI)
qed

end
